theory Spec2Isabelle
  imports Main "HOL-Library.Word"
begin

unbundle bit_operations_syntax

section \<open>Errors\<close>

text \<open>
  The package reports failures through sentinel errors (\<open>ErrInvalidURI\<close>, ...) wrapped
  together with a contextual message by \<open>errorsJoin\<close>.  A message built by
  \<open>fmt.Errorf\<close> is kept as its format string; the formatted arguments (slices of the
  offending input) play no role in any test on the error and are left out.
\<close>

datatype uri_error =
    ErrInvalidURI
  | ErrNoSchemeFound
  | ErrInvalidScheme
  | ErrInvalidHost
  | ErrInvalidDNSName
  | ErrInvalidRegisteredName
  | ErrInvalidHostAddress
  | ErrInvalidPort
  | ErrMissingHost
  | ErrInvalidPath
  | ErrInvalidQuery
  | ErrInvalidFragment
  | ErrInvalidUserInfo
  | ErrInvalidEscaping
  | Errorf string
  | Join "uri_error list"

text \<open>
  Modelled from the spec: \<open>errorsJoin\<close> and the sentinels live in the package's errors
  file, which is not part of the sources at hand.  The specification says that errors
  compose via a join operator so that \<open>is(err, Kind)\<close> succeeds on any wrapped
  occurrence; this is Go's \<open>errors.Join\<close> and \<open>errors.Is\<close>.
\<close>

definition errorsJoin :: "uri_error list \<Rightarrow> uri_error" where
  "errorsJoin errs = Join errs"

fun errors_Is :: "uri_error \<Rightarrow> uri_error \<Rightarrow> bool" where
  "errors_Is (Join errs) target = (Join errs = target \<or> list_ex (\<lambda>e. errors_Is e target) errs)"
| "errors_Is e target = (e = target)"

section \<open>Bytes, runes and UTF-8\<close>

text \<open>
  A Go string is a sequence of bytes: it is a \<^typ>\<open>string\<close> here, whose characters are
  the 256 byte values.  A rune is a natural number.  Bytes read as numbers go through
  \<^const>\<open>of_char\<close>.  The shifts and masks of the source act on values that cannot
  overflow their type, so they are written as multiplications and remainders:
  \<open>x & 0x3F\<close> is \<open>x mod 64\<close>, \<open>x << 6\<close> is \<open>x * 64\<close>, and \<open>|\<close> on disjoint bit
  ranges is \<open>+\<close>.
\<close>

type_synonym rune = nat

definition byte :: "char \<Rightarrow> nat" where
  "byte c = of_char c"

definition colonMark :: rune where "colonMark = 0x3A"
definition questionMark :: rune where "questionMark = 0x3F"
definition fragmentMark :: rune where "fragmentMark = 0x23"
definition percentMark :: rune where "percentMark = 0x25"
definition atHost :: rune where "atHost = 0x40"
definition slashMark :: rune where "slashMark = 0x2F"
definition dotSeparator :: rune where "dotSeparator = 0x2E"

definition RuneError :: rune where
  "RuneError = 0xFFFD"

text \<open>
  \<open>utf8.DecodeRune\<close> of Go's standard library, following its implementation: the
  first byte selects the length of the sequence and the range accepted for the second
  byte (which excludes overlong forms, surrogates and values above \<open>U+10FFFF\<close>); an empty
  input yields \<open>(RuneError, 0)\<close> and any malformed input \<open>(RuneError, 1)\<close>.
\<close>

definition utf8_seqLength :: "nat \<Rightarrow> nat" where
  "utf8_seqLength s0 = (if s0 < 0xE0 then 2 else if s0 < 0xF0 then 3 else 4)"

definition utf8_acceptRange :: "nat \<Rightarrow> nat \<times> nat" where
  "utf8_acceptRange s0 =
     (if s0 = 0xE0 then (0xA0, 0xBF)
      else if s0 = 0xED then (0x80, 0x9F)
      else if s0 = 0xF0 then (0x90, 0xBF)
      else if s0 = 0xF4 then (0x80, 0x8F)
      else (0x80, 0xBF))"

definition DecodeRune :: "nat list \<Rightarrow> rune \<times> nat" where
  "DecodeRune p =
     (if length p < 1 then (RuneError, 0)
      else let s0 = p ! 0 in
        if s0 < 0x80 then (s0, 1)
        else if s0 < 0xC2 \<or> 0xF4 < s0 then (RuneError, 1)
        else let sz = utf8_seqLength s0; accept = utf8_acceptRange s0 in
          if length p < sz then (RuneError, 1)
          else let s1 = p ! 1 in
            if s1 < fst accept \<or> snd accept < s1 then (RuneError, 1)
            else if sz \<le> 2 then ((s0 mod 32) * 64 + s1 mod 64, 2)
            else let s2 = p ! 2 in
              if s2 < 0x80 \<or> 0xBF < s2 then (RuneError, 1)
              else if sz \<le> 3 then ((s0 mod 16) * 4096 + (s1 mod 64) * 64 + s2 mod 64, 3)
              else let s3 = p ! 3 in
                if s3 < 0x80 \<or> 0xBF < s3 then (RuneError, 1)
                else ((s0 mod 8) * 262144 + (s1 mod 64) * 4096 + (s2 mod 64) * 64 + s3 mod 64, 4))"

definition DecodeRuneInString :: "string \<Rightarrow> rune \<times> nat" where
  "DecodeRuneInString s = DecodeRune (map byte s)"

section \<open>Character classes\<close>

definition isDigit :: "nat \<Rightarrow> bool" where
  "isDigit r = (0x30 \<le> r \<and> r \<le> 0x39)"

definition isNotDigit :: "nat \<Rightarrow> bool" where
  "isNotDigit r = (r < 0x30 \<or> r > 0x39)"

definition isASCIILetter :: "nat \<Rightarrow> bool" where
  "isASCIILetter c = (0x61 \<le> c \<and> c \<le> 0x7A \<or> 0x41 \<le> c \<and> c \<le> 0x5A)"

definition isHex :: "nat \<Rightarrow> bool" where
  "isHex c = (isDigit c \<or> (0x61 \<le> c \<and> c \<le> 0x66) \<or> (0x41 \<le> c \<and> c \<le> 0x46))"

definition unhex :: "nat \<Rightarrow> nat" where
  "unhex c =
     (if 0x30 \<le> c \<and> c \<le> 0x39 then c - 0x30
      else if 0x61 \<le> c \<and> c \<le> 0x66 then c - 0x61 + 10
      else if 0x41 \<le> c \<and> c \<le> 0x46 then c - 0x41 + 10
      else 0)"

definition inRanges :: "(nat \<times> nat) list \<Rightarrow> nat \<Rightarrow> bool" where
  "inRanges rs r = list_ex (\<lambda>(lo, hi). lo \<le> r \<and> r \<le> hi) rs"

definition ucschar :: "(nat \<times> nat) list" where
  "ucschar =
     [(0xA0, 0xD7FF), (0xF900, 0xFDCF), (0xFDF0, 0xFFEF),
      (0x10000, 0x1FFFD), (0x20000, 0x2FFFD), (0x30000, 0x3FFFD), (0x40000, 0x4FFFD),
      (0x50000, 0x5FFFD), (0x60000, 0x6FFFD), (0x70000, 0x7FFFD), (0x80000, 0x8FFFD),
      (0x90000, 0x9FFFD), (0xA0000, 0xAFFFD), (0xB0000, 0xBFFFD), (0xC0000, 0xCFFFD),
      (0xD0000, 0xDFFFD), (0xE1000, 0xEFFFD)]"

definition isUcsChar :: "rune \<Rightarrow> bool" where
  "isUcsChar r = inRanges ucschar r"

section \<open>What the package takes from outside the sources at hand\<close>

text \<open>
  The validators call into Go's Unicode tables and into the package's IP validators,
  whose file is not among the sources.  They are parameters of the model:
  \<^item> \<open>LetterTable\<close> and \<open>DigitTable\<close>: the categories L and Nd of the Unicode tables above
    Latin-1 (\<open>unicode.IsLetter\<close>, \<open>unicode.IsDigit\<close> decide Latin-1 by a fixed table,
    written out below);
  \<^item> \<open>UsesDNSHostValidation\<close>: a package variable that callers may override; its default
    is \<open>defaultUsesDNSHostValidation\<close>;
  \<^item> \<open>validateIPv4\<close>, \<open>validateIPv6\<close>, \<open>validateIPvFuture\<close>: the IP validators.
\<close>

record environment =
  LetterTable :: "rune \<Rightarrow> bool"
  DigitTable :: "rune \<Rightarrow> bool"
  UsesDNSHostValidation :: "string \<Rightarrow> bool"
  validateIPv4 :: "string \<Rightarrow> uri_error option"
  validateIPv6 :: "string \<Rightarrow> uri_error option"
  validateIPvFuture :: "string \<Rightarrow> uri_error option"

definition latin1Letter :: "rune \<Rightarrow> bool" where
  "latin1Letter r =
     (isASCIILetter r \<or> r = 0xAA \<or> r = 0xB5 \<or> r = 0xBA
      \<or> (0xC0 \<le> r \<and> r \<le> 0xD6) \<or> (0xD8 \<le> r \<and> r \<le> 0xF6) \<or> (0xF8 \<le> r \<and> r \<le> 0xFF))"

definition unicode_IsLetter :: "environment \<Rightarrow> rune \<Rightarrow> bool" where
  "unicode_IsLetter E r = (if r \<le> 0xFF then latin1Letter r else LetterTable E r)"

definition unicode_IsDigit :: "environment \<Rightarrow> rune \<Rightarrow> bool" where
  "unicode_IsDigit E r = (if r \<le> 0xFF then 0x30 \<le> r \<and> r \<le> 0x39 else DigitTable E r)"

section \<open>Percent-decoding\<close>

definition unescapeSequence :: "string \<Rightarrow> uri_error + nat" where
  "unescapeSequence escapeSequence =
     (if length escapeSequence < 2
      then Inl (Errorf ''expected escaping % to be followed by 2 hex digits, near: %q'')
      else if \<not> isHex (byte (escapeSequence ! 0)) \<or> \<not> isHex (byte (escapeSequence ! 1))
      then Inl (Errorf ''part contains a malformed percent-encoded hex digit, near: %q'')
      else Inr (unhex (byte (escapeSequence ! 0)) * 16 + unhex (byte (escapeSequence ! 1))))"

definition expectedEscape :: uri_error where
  "expectedEscape = Errorf ''expected a % escape character, near: %q''"

definition unescapePercentEncoding :: "string \<Rightarrow> uri_error + (rune \<times> nat)" where
  "unescapePercentEncoding s =
     (case
        (case unescapeSequence s of
           Inl e \<Rightarrow> Inl e
         | Inr c0 \<Rightarrow>
             if c0 \<ge> 0xC0 then
               if 2 \<ge> length s then Inl expectedEscape
               else if s ! 2 \<noteq> CHR ''%'' then Inl expectedEscape
               else (case unescapeSequence (drop 3 s) of
                  Inl e \<Rightarrow> Inl e
                | Inr c1 \<Rightarrow>
                    if c0 \<ge> 0xE0 then
                      if 5 \<ge> length s then Inl expectedEscape
                      else if s ! 5 \<noteq> CHR ''%'' then Inl expectedEscape
                      else (case unescapeSequence (drop 6 s) of
                         Inl e \<Rightarrow> Inl e
                       | Inr c2 \<Rightarrow>
                           if c0 \<ge> 0xF0 then
                             if 8 \<ge> length s then Inl expectedEscape
                             else if s ! 8 \<noteq> CHR ''%'' then Inl expectedEscape
                             else (case unescapeSequence (drop 9 s) of
                                Inl e \<Rightarrow> Inl e
                              | Inr c3 \<Rightarrow> Inr ([c0, c1, c2, c3], 11))
                           else Inr ([c0, c1, c2], 8))
                    else Inr ([c0, c1], 5))
             else Inr ([c0], 2))
      of
        Inl e \<Rightarrow> Inl e
      | Inr (codePoint, offset) \<Rightarrow>
          let unescapedRune = fst (DecodeRune codePoint) in
          if unescapedRune = RuneError
          then Inl (Errorf ''the escaped code points do not add up to a valid rune'')
          else Inr (unescapedRune, offset))"

section \<open>The generic component validator\<close>

definition isUnreservedOrSubDelim :: "environment \<Rightarrow> rune \<Rightarrow> bool" where
  "isUnreservedOrSubDelim E r =
     (unicode_IsLetter E r \<or> unicode_IsDigit E r
      \<or> r = 0x2D \<or> r = 0x2E \<or> r = 0x5F \<or> r = 0x7E
      \<or> isUcsChar r
      \<or> r = 0x21 \<or> r = 0x24 \<or> r = 0x26 \<or> r = 0x27 \<or> r = 0x28 \<or> r = 0x29
      \<or> r = 0x2A \<or> r = 0x2B \<or> r = 0x2C \<or> r = 0x3B \<or> r = 0x3D)"

lemma DecodeRune_size_pos: "p \<noteq> [] \<Longrightarrow> 1 \<le> snd (DecodeRune p)"
  by (simp add: DecodeRune_def Let_def)

lemma DecodeRuneInString_size_pos: "s \<noteq> [] \<Longrightarrow> 1 \<le> snd (DecodeRuneInString s)"
  using DecodeRune_size_pos [of "map byte s"] by (simp add: DecodeRuneInString_def)

function validateUnreservedWithExtra :: "environment \<Rightarrow> string \<Rightarrow> rune list \<Rightarrow> uri_error option" where
  "validateUnreservedWithExtra E s acceptedRunes =
     (if s = [] then None
      else
        let r = fst (DecodeRuneInString s); size = snd (DecodeRuneInString s) in
        if r = RuneError
        then Some (errorsJoin [ErrInvalidEscaping, Errorf ''invalid UTF8 rune near: %q''])
        else if r = percentMark then
          if drop size s = []
          then Some (errorsJoin [ErrInvalidEscaping, Errorf ''incomplete escape sequence''])
          else (case unescapePercentEncoding (drop size s) of
              Inl e \<Rightarrow> Some (errorsJoin [ErrInvalidEscaping, e])
            | Inr (_, offset) \<Rightarrow>
                validateUnreservedWithExtra E (drop offset (drop size s)) acceptedRunes)
        else if \<not> isUnreservedOrSubDelim E r \<and> r \<notin> set acceptedRunes
        then Some (Errorf ''contains an invalid character: %U (%q) near %q'')
        else validateUnreservedWithExtra E (drop size s) acceptedRunes)"
  by pat_completeness auto
termination
proof (relation "measure (\<lambda>(E, s, a). length s)")
  show "wf (measure (\<lambda>(E, s, a). length s))" by simp
next
  fix E :: environment and s :: string and acceptedRunes :: "rune list"
    and r size x2 x y
  assume "s \<noteq> []" "size = snd (DecodeRuneInString s)"
  then have "1 \<le> size" using DecodeRuneInString_size_pos [of s] by simp
  with \<open>s \<noteq> []\<close>
  show "((E, drop y (drop size s), acceptedRunes), (E, s, acceptedRunes))
          \<in> measure (\<lambda>(E, s, a). length s)"
    by (cases s) auto
next
  fix E :: environment and s :: string and acceptedRunes :: "rune list"
    and r size
  assume "s \<noteq> []" "size = snd (DecodeRuneInString s)"
  then have "1 \<le> size" using DecodeRuneInString_size_pos [of s] by simp
  with \<open>s \<noteq> []\<close>
  show "((E, drop size s, acceptedRunes), (E, s, acceptedRunes))
          \<in> measure (\<lambda>(E, s, a). length s)"
    by (cases s) auto
qed

declare validateUnreservedWithExtra.simps [simp del]

section \<open>Strings and slices\<close>

text \<open>
  Positions are Go \<open>int\<close>s: \<open>strings.IndexByte\<close> answers \<open>-1\<close> when the byte is absent.
  \<open>slice s a b\<close> is \<open>s[a:b]\<close>, \<open>sliceFrom s a\<close> is \<open>s[a:]\<close> and \<open>sliceTo s b\<close> is
  \<open>s[:b]\<close>; the source only slices within bounds.
\<close>

fun IndexByte :: "string \<Rightarrow> char \<Rightarrow> int" where
  "IndexByte [] c = -1"
| "IndexByte (x # xs) c =
     (if x = c then 0 else let i = IndexByte xs c in if i < 0 then -1 else i + 1)"

definition len :: "string \<Rightarrow> int" where
  "len s = int (length s)"

definition slice :: "string \<Rightarrow> int \<Rightarrow> int \<Rightarrow> string" where
  "slice s a b = take (nat (b - a)) (drop (nat a) s)"

definition sliceFrom :: "string \<Rightarrow> int \<Rightarrow> string" where
  "sliceFrom s a = drop (nat a) s"

definition sliceTo :: "string \<Rightarrow> int \<Rightarrow> string" where
  "sliceTo s b = take (nat b) s"

definition HasPrefix :: "string \<Rightarrow> string \<Rightarrow> bool" where
  "HasPrefix s pre = (take (length pre) s = pre)"

definition authorityPrefix :: string where
  "authorityPrefix = ''//''"

definition maxSegmentLength :: nat where "maxSegmentLength = 63"
definition maxDomainLength :: nat where "maxDomainLength = 255"

definition pcharExtraRunes :: "rune list" where
  "pcharExtraRunes = [colonMark, atHost]"

definition queryOrFragmentExtraRunes :: "rune list" where
  "queryOrFragmentExtraRunes = pcharExtraRunes @ [slashMark, questionMark]"

definition userInfoExtraRunes :: "rune list" where
  "userInfoExtraRunes = pcharExtraRunes @ [colonMark]"

section \<open>The URI value and the options\<close>

record ipType =
  isIPv4 :: bool
  isIPv6 :: bool
  isIPvFuture :: bool

record Authority =
  aerr :: "uri_error option"
  prefix :: string
  userinfo :: string
  host :: string
  port :: string
  path :: string
  ip :: ipType

record URI =
  err :: "uri_error option"
  scheme :: string
  hierPart :: string
  query :: string
  fragment :: string
  authority :: Authority

definition noIP :: ipType where
  "noIP = \<lparr>isIPv4 = False, isIPv6 = False, isIPvFuture = False\<rparr>"

definition emptyAuthority :: Authority where
  "emptyAuthority =
     \<lparr>aerr = None, prefix = [], userinfo = [], host = [], port = [], path = [], ip = noIP\<rparr>"

definition emptyURI :: URI where
  "emptyURI =
     \<lparr>err = None, scheme = [], hierPart = [], query = [], fragment = [],
      authority = emptyAuthority\<rparr>"

record options =
  withURIReference :: bool
  withStrictURI :: bool
  withStrictIRI :: bool
  withWindowsFriendly :: bool
  validationFlags :: "16 word"

type_synonym Option = "options \<Rightarrow> options"

definition flagValidateScheme :: "16 word" where "flagValidateScheme = 1"
definition flagValidateHost :: "16 word" where "flagValidateHost = 2"
definition flagValidatePort :: "16 word" where "flagValidatePort = 4"
definition flagValidateUserInfo :: "16 word" where "flagValidateUserInfo = 8"
definition flagValidatePath :: "16 word" where "flagValidatePath = 16"
definition flagValidateQuery :: "16 word" where "flagValidateQuery = 32"
definition flagValidateFragment :: "16 word" where "flagValidateFragment = 64"

definition packageLevelDefaults :: options where
  "packageLevelDefaults =
     \<lparr>withURIReference = False, withStrictURI = False, withStrictIRI = False,
      withWindowsFriendly = False, validationFlags = NOT 0\<rparr>"

definition packageLevelReferenceDefaults :: options where
  "packageLevelReferenceDefaults =
     \<lparr>withURIReference = True, withStrictURI = False, withStrictIRI = False,
      withWindowsFriendly = False, validationFlags = NOT 0\<rparr>"

definition applyURIOptions :: "Option list \<Rightarrow> options" where
  "applyURIOptions opts =
     (if length opts = 0 then packageLevelDefaults
      else foldl (\<lambda>ops apply. apply ops) packageLevelDefaults opts)"

definition applyURIReferenceOptions :: "Option list \<Rightarrow> options" where
  "applyURIReferenceOptions opts =
     (if length opts = 0 then packageLevelReferenceDefaults
      else foldl (\<lambda>ops apply. apply ops) packageLevelReferenceDefaults opts)"

definition withValidationFlags :: "16 word \<Rightarrow> Option" where
  "withValidationFlags flags = (\<lambda>ops. ops\<lparr>validationFlags := flags\<rparr>)"

definition WithReference :: "bool \<Rightarrow> Option" where
  "WithReference enabled = (\<lambda>ops. ops\<lparr>withURIReference := enabled\<rparr>)"

definition WithStrictURI :: "bool \<Rightarrow> Option" where
  "WithStrictURI enabled = (\<lambda>ops. ops\<lparr>withStrictURI := enabled\<rparr>)"

definition WithStrictIRI :: "bool \<Rightarrow> Option" where
  "WithStrictIRI enabled = (\<lambda>ops. ops\<lparr>withStrictIRI := enabled\<rparr>)"

definition WithWindowsFriendly :: "bool \<Rightarrow> Option" where
  "WithWindowsFriendly enabled = (\<lambda>ops. ops\<lparr>withWindowsFriendly := enabled\<rparr>)"

section \<open>Splitting the hier-part into authority and path\<close>

text \<open>
  \<open>parseAuthority\<close> works in consecutive steps on an input that starts with \<open>//\<close>, each
  a definition of its own here:
  \<^item> \<open>authPath\<close> and \<open>authRegion\<close>: the text from the first slash on is the path, the text
    before it the authority region (\<open>slashEnd\<close> in the source);
  \<^item> \<open>authUser\<close> and \<open>authHostPort\<close>: an at-sign past position 0 (\<open>at > 0\<close>) ends the
    userinfo; the host-and-port text follows it, unless nothing follows;
  \<^item> \<open>splitHostPort\<close>: with an opening bracket, the host is the text between the first
    opening and the first closing bracket and the port follows the first colon after
    it (empty or mismatched brackets are errors); without one, the first colon separates
    host and port.  \<open>portAfter\<close> is \<open>if colon+1 < len(t) { port = t[colon+1:] }\<close>.
\<close>

definition authPath :: "string \<Rightarrow> string" where
  "authPath hier =
     (let slashEnd = IndexByte hier (CHR ''/'') in
      if slashEnd > -1 \<and> slashEnd < len hier then sliceFrom hier slashEnd else [])"

definition authRegion :: "string \<Rightarrow> string" where
  "authRegion hier =
     (let slashEnd = IndexByte hier (CHR ''/'') in
      if slashEnd > -1 then sliceTo hier slashEnd else hier)"

definition authUser :: "string \<Rightarrow> string" where
  "authUser hst =
     (let at = IndexByte hst (CHR ''@'') in if at > 0 then sliceTo hst at else [])"

definition authHostPort :: "string \<Rightarrow> string" where
  "authHostPort hst =
     (let at = IndexByte hst (CHR ''@'') in
      if at > 0 \<and> at + 1 < len hst then sliceFrom hst (at + 1) else hst)"

definition portAfter :: "string \<Rightarrow> string" where
  "portAfter t =
     (let colon = IndexByte t (CHR '':'') in
      if colon \<ge> 0 \<and> colon + 1 < len t then sliceFrom t (colon + 1) else [])"

definition splitHostPort :: "string \<Rightarrow> uri_error + (string \<times> string \<times> bool)" where
  "splitHostPort hst =
     (let bracket = IndexByte hst (CHR ''['') in
      if bracket \<ge> 0 then
        let closingbracket = IndexByte hst (CHR '']'') in
        if closingbracket > bracket + 1 then
          Inr (slice hst (bracket + 1) closingbracket,
               portAfter (sliceFrom hst (closingbracket + 1)), True)
        else if closingbracket > bracket then
          Inl (errorsJoin [ErrInvalidHostAddress, Errorf ''empty IPv6 address''])
        else
          Inl (errorsJoin [ErrInvalidHostAddress, Errorf ''mismatched square brackets''])
      else
        let colon = IndexByte hst (CHR '':'') in
        Inr ((if colon \<ge> 0 then sliceTo hst colon else hst), portAfter hst, False))"

definition parseAuthority :: "string \<Rightarrow> uri_error + Authority" where
  "parseAuthority hier0 =
     (if \<not> HasPrefix hier0 authorityPrefix then Inr (emptyAuthority\<lparr>path := hier0\<rparr>)
      else
        let hier = drop (length authorityPrefix) hier0 in
        (case splitHostPort (authHostPort (authRegion hier)) of
           Inl e \<Rightarrow> Inl e
         | Inr (hst, prt, ipv6) \<Rightarrow>
             Inr \<lparr>aerr = None, prefix = authorityPrefix, userinfo = authUser (authRegion hier),
                  host = hst, port = prt, path = authPath hier,
                  ip = noIP\<lparr>isIPv6 := ipv6\<rparr>\<rparr>))"

section \<open>The DNS host validator\<close>

text \<open>
  The source reads one rune and, when it is a percent mark, replaces it by the rune that the
  escape decodes to.  Both DNS loops do this; \<open>offset\<close> is the position in the segment.
\<close>

definition invalidDNSRune :: uri_error where
  "invalidDNSRune = errorsJoin [ErrInvalidDNSName, Errorf ''invalid UTF8 rune near: %q'']"

definition emptyDNSSegment :: uri_error where
  "emptyDNSSegment =
     errorsJoin [ErrInvalidDNSName, Errorf ''a DNS name should not contain an empty segment'']"

definition badDNSSegmentEnd :: uri_error where
  "badDNSSegmentEnd =
     errorsJoin [ErrInvalidDNSName,
       Errorf ''a segment in a DNS name must end with a letter or a digit: %q ends with %q'']"

definition validateFirstRuneInSegment :: "environment \<Rightarrow> string \<Rightarrow> uri_error + (rune \<times> nat)" where
  "validateFirstRuneInSegment E s =
     (let r = fst (DecodeRuneInString s); size = snd (DecodeRuneInString s) in
      if r = RuneError then Inl invalidDNSRune
      else if r = dotSeparator then Inl emptyDNSSegment
      else
        (case
           (if r = percentMark then
              if size \<ge> length s
              then Inl (errorsJoin
                     [errorsJoin [ErrInvalidEscaping, Errorf ''incomplete escape sequence'']])
              else (case unescapePercentEncoding (drop size s) of
                  Inl e \<Rightarrow> Inl (errorsJoin [ErrInvalidDNSName, errorsJoin [ErrInvalidEscaping, e]])
                | Inr (unescapedRune, consumed) \<Rightarrow> Inr (unescapedRune, size + consumed))
            else Inr (r, size))
         of
           Inl e \<Rightarrow> Inl e
         | Inr (r, offset) \<Rightarrow>
             if \<not> unicode_IsLetter E r
             then Inl (errorsJoin [ErrInvalidDNSName,
                    Errorf ''a segment in a DNS name must begin with a letter: %q starts with %q''])
             else Inr (r, offset)))"

definition nextHostRune :: "string \<Rightarrow> nat \<Rightarrow> uri_error + (rune \<times> nat)" where
  "nextHostRune s offset =
     (let r = fst (DecodeRuneInString (drop offset s));
          size = snd (DecodeRuneInString (drop offset s)) in
      if r = RuneError then Inl invalidDNSRune
      else if r = percentMark then
        if offset + size \<ge> length s
        then Inl (errorsJoin [ErrInvalidDNSName,
               errorsJoin [ErrInvalidEscaping, Errorf ''incomplete escape sequence'']])
        else (case unescapePercentEncoding (drop (offset + size) s) of
            Inl e \<Rightarrow> Inl (errorsJoin [ErrInvalidDNSName, errorsJoin [ErrInvalidEscaping, e]])
          | Inr (unescapedRune, size') \<Rightarrow> Inr (unescapedRune, offset + size + size'))
      else Inr (r, offset + size))"

lemma nextHostRune_advances:
  assumes "offset < length s" "nextHostRune s offset = Inr (r, offset')"
  shows "offset < offset'"
proof -
  from assms(1) have "drop offset s \<noteq> []" by simp
  then have "1 \<le> snd (DecodeRuneInString (drop offset s))"
    by (rule DecodeRuneInString_size_pos)
  with assms(2) show ?thesis
    by (auto simp: nextHostRune_def Let_def split: if_splits sum.splits)
qed

lemma nextHostRune_measure:
  assumes "offset < length s" "nextHostRune s offset = Inr (r, offset')"
  shows "length s - offset' < length s - offset"
  using nextHostRune_advances [OF assms] assms(1) by simp

function hostSegmentLoop ::
  "environment \<Rightarrow> string \<Rightarrow> nat \<Rightarrow> rune \<Rightarrow> bool \<Rightarrow> uri_error + (rune \<times> nat)" where
  "hostSegmentLoop E s offset lastr once =
     (if offset < length s then
        (case nextHostRune s offset of
           Inl e \<Rightarrow> Inl e
         | Inr (r, offset') \<Rightarrow>
             if r = dotSeparator then
               if offset' \<ge> length s then Inl emptyDNSSegment
               else if \<not> unicode_IsLetter E lastr \<and> \<not> unicode_IsDigit E lastr
               then Inl badDNSSegmentEnd
               else Inr (r, offset')
             else if offset' > maxSegmentLength
             then Inl (errorsJoin [ErrInvalidDNSName,
                    Errorf ''a segment in a DNS name should not be longer than 63 bytes: %q''])
             else if \<not> unicode_IsLetter E r \<and> \<not> unicode_IsDigit E r \<and> r \<noteq> 0x2D
             then Inl (errorsJoin [ErrInvalidDNSName,
                    Errorf ''a segment in a DNS name must contain only letters, digits or -: %q contains %q''])
             else hostSegmentLoop E s offset' r True)
      else if once \<and> \<not> unicode_IsLetter E lastr \<and> \<not> unicode_IsDigit E lastr
      then Inl badDNSSegmentEnd
      else Inr (lastr, offset))"
  by pat_completeness auto
termination
proof (relation "measure (\<lambda>(E, s, offset, lastr, once). length s - offset)")
  show "wf (measure (\<lambda>(E, s, offset, lastr, once). length s - offset))" by simp
next
  fix E :: environment and s :: string and offset :: nat and lastr :: rune and once :: bool
    and x2 :: "rune \<times> nat" and x y
  assume "offset < length s" "nextHostRune s offset = Inr x2" "(x, y) = x2"
  then have "length s - y < length s - offset"
    using nextHostRune_measure [of offset s x y] by simp
  then show "((E, s, y, x, True), (E, s, offset, lastr, once))
               \<in> measure (\<lambda>(E, s, offset, lastr, once). length s - offset)"
    by simp
qed

declare hostSegmentLoop.simps [simp del]

definition validateHostSegment :: "environment \<Rightarrow> string \<Rightarrow> uri_error + (rune \<times> nat)" where
  "validateHostSegment E s =
     (case validateFirstRuneInSegment E s of
        Inl e \<Rightarrow> Inl e
      | Inr (lastr, offset) \<Rightarrow> hostSegmentLoop E s offset lastr False)"

lemma validateFirstRuneInSegment_advances:
  assumes "s \<noteq> []" "validateFirstRuneInSegment E s = Inr (r, offset)"
  shows "0 < offset"
proof -
  from assms(1) have "1 \<le> snd (DecodeRuneInString s)"
    by (rule DecodeRuneInString_size_pos)
  with assms(2) show ?thesis
    by (auto simp: validateFirstRuneInSegment_def Let_def split: if_splits sum.splits prod.splits)
qed

lemma hostSegmentLoop_advances:
  "hostSegmentLoop E s offset lastr once = Inr (r, offset') \<Longrightarrow> offset \<le> offset'"
proof (induction E s offset lastr once rule: hostSegmentLoop.induct)
  case (1 E s offset lastr once)
  note eq = "1.prems" [unfolded hostSegmentLoop.simps [of E s offset lastr once]]
  show ?case
  proof (cases "offset < length s")
    case False
    with eq show ?thesis by (simp split: if_splits)
  next
    case True
    show ?thesis
    proof (cases "nextHostRune s offset")
      case (Inl e)
      with True eq show ?thesis by simp
    next
      case (Inr p)
      obtain r' o' where p: "p = (r', o')" by (cases p)
      from True Inr p have adv: "offset < o'" by (auto dest: nextHostRune_advances)
      show ?thesis
      proof (cases "r' = dotSeparator")
        case True
        with \<open>offset < length s\<close> Inr p eq adv show ?thesis
          by (simp split: if_splits)
      next
        case False
        with \<open>offset < length s\<close> Inr p eq have
          rec: "hostSegmentLoop E s o' r' True = Inr (r, offset')"
          and c1: "\<not> o' > maxSegmentLength"
          and c2: "\<not> (\<not> unicode_IsLetter E r' \<and> \<not> unicode_IsDigit E r' \<and> r' \<noteq> 0x2D)"
          by (simp_all split: if_splits)
        from "1.IH" [OF \<open>offset < length s\<close> Inr p [symmetric] False c1 c2 rec] adv
        show ?thesis by simp
      qed
    qed
  qed
qed

lemma validateHostSegment_advances:
  assumes "s \<noteq> []" "validateHostSegment E s = Inr (r, consumed)"
  shows "0 < consumed"
proof -
  from assms(2) obtain l off where f: "validateFirstRuneInSegment E s = Inr (l, off)"
    and h: "hostSegmentLoop E s off l False = Inr (r, consumed)"
    by (auto simp: validateHostSegment_def split: sum.splits)
  from validateFirstRuneInSegment_advances [OF assms(1) f] hostSegmentLoop_advances [OF h]
  show ?thesis by simp
qed

function dnsHostLoop :: "environment \<Rightarrow> string \<Rightarrow> nat \<Rightarrow> uri_error option" where
  "dnsHostLoop E hostname offset =
     (if offset < length hostname then
        (case validateHostSegment E (drop offset hostname) of
           Inl e \<Rightarrow> Some e
         | Inr (lastr, consumed) \<Rightarrow>
             if lastr \<noteq> dotSeparator then None
             else dnsHostLoop E hostname (offset + consumed))
      else None)"
  by pat_completeness auto
termination
proof (relation "measure (\<lambda>(E, hostname, offset). length hostname - offset)")
  show "wf (measure (\<lambda>(E, hostname, offset). length hostname - offset))" by simp
next
  fix E :: environment and hostname :: string and offset :: nat and x2 lastr consumed
  assume lt: "offset < length hostname"
    and v: "validateHostSegment E (drop offset hostname) = Inr x2"
    and x: "(lastr, consumed) = x2"
  from lt have "drop offset hostname \<noteq> []" by simp
  from validateHostSegment_advances [OF this] v x have "0 < consumed" by auto
  with lt
  show "((E, hostname, offset + consumed), (E, hostname, offset))
          \<in> measure (\<lambda>(E, hostname, offset). length hostname - offset)"
    by simp
qed

declare dnsHostLoop.simps [simp del]

definition validateDNSHostForScheme :: "environment \<Rightarrow> string \<Rightarrow> uri_error option" where
  "validateDNSHostForScheme E hostname =
     (if length hostname > maxDomainLength
      then Some (errorsJoin [ErrInvalidDNSName,
             Errorf ''hostname is longer than the allowed 255 bytes''])
      else if length hostname = 0 then Some emptyDNSSegment
      else dnsHostLoop E hostname 0)"

definition defaultUsesDNSHostValidation :: "string \<Rightarrow> bool" where
  "defaultUsesDNSHostValidation sch =
     (sch \<in> set [''https'', ''http'',
        ''aaa'', ''aaas'', ''acap'', ''acct'', ''cap'', ''cid'',
        ''coap'', ''coaps'', ''coap+tcp'', ''coap+ws'', ''coaps+tcp'', ''coaps+ws'',
        ''dav'', ''dict'', ''dns'', ''dntp'', ''finger'', ''ftp'', ''git'', ''gopher'',
        ''h323'', ''iax'', ''icap'', ''im'', ''imap'', ''ipp'', ''ipps'',
        ''irc'', ''irc6'', ''ircs'', ''jms'', ''ldap'', ''mailto'', ''mid'',
        ''msrp'', ''msrps'', ''nfs'', ''nntp'', ''ntp'', ''postgresql'', ''radius'',
        ''redis'', ''rmi'', ''rtsp'', ''rtsps'', ''rtspu'', ''rsync'', ''sftp'', ''skype'',
        ''smtp'', ''snmp'', ''soap'', ''ssh'', ''steam'', ''svn'', ''tcp'', ''telnet'',
        ''udp'', ''vnc'', ''wais'', ''ws'', ''wss''])"

section \<open>The component validators\<close>

fun schemeLoop :: "string \<Rightarrow> uri_error option" where
  "schemeLoop [] = None"
| "schemeLoop (c # cs) =
     (if isDigit (byte c) then schemeLoop cs
      else if isASCIILetter (byte c) then schemeLoop cs
      else if c = CHR ''+'' \<or> c = CHR ''-'' \<or> c = CHR ''.'' then schemeLoop cs
      else Some (errorsJoin [ErrInvalidScheme, Errorf ''invalid character %q found in scheme'']))"

definition validateScheme :: "string \<Rightarrow> uri_error option" where
  "validateScheme sch =
     (if length sch < 2 then Some ErrInvalidScheme
      else if \<not> isASCIILetter (byte (sch ! 0))
      then Some (errorsJoin [ErrInvalidScheme,
             Errorf ''an URI scheme must start with an ASCII letter''])
      else schemeLoop (drop 1 sch))"

definition validateQuery :: "environment \<Rightarrow> string \<Rightarrow> uri_error option" where
  "validateQuery E q =
     (case validateUnreservedWithExtra E q queryOrFragmentExtraRunes of
        Some e \<Rightarrow> Some (errorsJoin [ErrInvalidQuery, e])
      | None \<Rightarrow> None)"

definition validateFragment :: "environment \<Rightarrow> string \<Rightarrow> uri_error option" where
  "validateFragment E f =
     (case validateUnreservedWithExtra E f queryOrFragmentExtraRunes of
        Some e \<Rightarrow> Some (errorsJoin [ErrInvalidFragment, e])
      | None \<Rightarrow> None)"

definition validateUserInfo :: "environment \<Rightarrow> string \<Rightarrow> uri_error option" where
  "validateUserInfo E usr =
     (case validateUnreservedWithExtra E usr userInfoExtraRunes of
        Some e \<Rightarrow> Some (errorsJoin [ErrInvalidUserInfo, e])
      | None \<Rightarrow> None)"

text \<open>
  \<open>for pos, char := range path\<close> walks the runes of the path: each step decodes one rune
  at \<open>pos\<close> and moves on by its width (1 on malformed UTF-8).
\<close>

function pathLoop :: "environment \<Rightarrow> string \<Rightarrow> nat \<Rightarrow> nat \<Rightarrow> uri_error option" where
  "pathLoop E pth pos previousPos =
     (if pos < length pth then
        let char = fst (DecodeRuneInString (drop pos pth));
            size = snd (DecodeRuneInString (drop pos pth)) in
        if char \<noteq> slashMark then pathLoop E pth (pos + size) previousPos
        else if pos > previousPos then
          (case validateUnreservedWithExtra E (take (pos - previousPos) (drop previousPos pth))
                  pcharExtraRunes of
             Some e \<Rightarrow> Some (errorsJoin [ErrInvalidPath, e])
           | None \<Rightarrow> pathLoop E pth (pos + size) (pos + 1))
        else pathLoop E pth (pos + size) (pos + 1)
      else if previousPos < length pth then
        (case validateUnreservedWithExtra E (drop previousPos pth) pcharExtraRunes of
           Some e \<Rightarrow> Some (errorsJoin [ErrInvalidPath, e])
         | None \<Rightarrow> None)
      else None)"
  by pat_completeness auto
termination
proof (relation "measure (\<lambda>(E, pth, pos, previousPos). length pth - pos)")
  show "wf (measure (\<lambda>(E, pth, pos, previousPos). length pth - pos))" by simp
next
  fix E :: environment and pth :: string and pos previousPos size :: nat and char :: rune
  assume "pos < length pth" "size = snd (DecodeRuneInString (drop pos pth))"
  then have "1 \<le> size" using DecodeRuneInString_size_pos [of "drop pos pth"] by simp
  with \<open>pos < length pth\<close>
  show "((E, pth, pos + size, previousPos), (E, pth, pos, previousPos))
          \<in> measure (\<lambda>(E, pth, pos, previousPos). length pth - pos)"
    by simp
next
  fix E :: environment and pth :: string and pos previousPos size :: nat and char :: rune
  assume "pos < length pth" "size = snd (DecodeRuneInString (drop pos pth))"
  then have "1 \<le> size" using DecodeRuneInString_size_pos [of "drop pos pth"] by simp
  with \<open>pos < length pth\<close>
  show "((E, pth, pos + size, pos + 1), (E, pth, pos, previousPos))
          \<in> measure (\<lambda>(E, pth, pos, previousPos). length pth - pos)"
    by simp
next
  fix E :: environment and pth :: string and pos previousPos size :: nat and char :: rune
  assume "pos < length pth" "size = snd (DecodeRuneInString (drop pos pth))"
  then have "1 \<le> size" using DecodeRuneInString_size_pos [of "drop pos pth"] by simp
  with \<open>pos < length pth\<close>
  show "((E, pth, pos + size, pos + 1), (E, pth, pos, previousPos))
          \<in> measure (\<lambda>(E, pth, pos, previousPos). length pth - pos)"
    by simp
qed

declare pathLoop.simps [simp del]

definition validatePath :: "environment \<Rightarrow> Authority \<Rightarrow> string \<Rightarrow> uri_error option" where
  "validatePath E a pth =
     (if host a = [] \<and> port a = [] \<and> length pth \<ge> 2
         \<and> pth ! 0 = CHR ''/'' \<and> pth ! 1 = CHR ''/''
      then Some (errorsJoin [ErrInvalidPath,
             Errorf ''if a URI does not contain an authority component, then the path cannot begin with two slash characters (//): %q''])
      else pathLoop E pth 0 0)"

definition validateRegisteredHostForScheme :: "environment \<Rightarrow> string \<Rightarrow> uri_error option" where
  "validateRegisteredHostForScheme E hst =
     (case validateUnreservedWithExtra E hst [] of
        Some e \<Rightarrow> Some (errorsJoin [ErrInvalidRegisteredName, e])
      | None \<Rightarrow> None)"

definition validateHostForScheme :: "environment \<Rightarrow> string \<Rightarrow> string \<Rightarrow> uri_error option" where
  "validateHostForScheme E hst sch =
     (case (if UsesDNSHostValidation E sch then validateDNSHostForScheme E hst else None) of
        Some e \<Rightarrow> Some e
      | None \<Rightarrow> validateRegisteredHostForScheme E hst)"

text \<open>
  \<open>validateHost\<close> reads \<open>host[0]\<close>; its only caller passes a non-empty host.
\<close>

definition validateHost ::
  "environment \<Rightarrow> string \<Rightarrow> bool \<Rightarrow> string \<Rightarrow> ipType \<times> uri_error option" where
  "validateHost E hst ipv6 sch =
     (if ipv6 then
        if hst ! 0 = CHR ''v'' \<or> hst ! 0 = CHR ''V'' then
          (case validateIPvFuture E (drop 1 hst) of
             Some e \<Rightarrow> (noIP, Some (errorsJoin [ErrInvalidHostAddress, e]))
           | None \<Rightarrow> (noIP\<lparr>isIPv6 := True, isIPvFuture := True\<rparr>, None))
        else (noIP\<lparr>isIPv6 := True\<rparr>, validateIPv6 E hst)
      else if validateIPv4 E hst = None then (noIP\<lparr>isIPv4 := True\<rparr>, None)
      else (case validateHostForScheme E hst sch of
          Some e \<Rightarrow> (noIP, Some (errorsJoin [ErrInvalidHost, e]))
        | None \<Rightarrow> (noIP, None)))"

text \<open>
  \<open>strings.IndexFunc\<close> walks the runes of its input and answers the byte position of the
  first rune that satisfies the predicate, or \<open>-1\<close>.
\<close>

function IndexFuncFrom :: "(rune \<Rightarrow> bool) \<Rightarrow> string \<Rightarrow> nat \<Rightarrow> int" where
  "IndexFuncFrom f s pos =
     (if pos < length s then
        if f (fst (DecodeRuneInString (drop pos s))) then int pos
        else IndexFuncFrom f s (pos + snd (DecodeRuneInString (drop pos s)))
      else -1)"
  by pat_completeness auto
termination
proof (relation "measure (\<lambda>(f, s, pos). length s - pos)")
  show "wf (measure (\<lambda>(f, s, pos). length s - pos))" by simp
next
  fix f :: "rune \<Rightarrow> bool" and s :: string and pos :: nat
  assume "pos < length s"
  then have "1 \<le> snd (DecodeRuneInString (drop pos s))"
    using DecodeRuneInString_size_pos [of "drop pos s"] by simp
  with \<open>pos < length s\<close>
  show "((f, s, pos + snd (DecodeRuneInString (drop pos s))), (f, s, pos))
          \<in> measure (\<lambda>(f, s, pos). length s - pos)"
    by simp
qed

declare IndexFuncFrom.simps [simp del]

definition IndexFunc :: "string \<Rightarrow> (rune \<Rightarrow> bool) \<Rightarrow> int" where
  "IndexFunc s f = IndexFuncFrom f s 0"

definition isNumerical :: "string \<Rightarrow> bool" where
  "isNumerical input = (IndexFunc input isNotDigit = -1)"

text \<open>
  \<open>strconv.ParseUint(port, 10, 64)\<close>, whose error the source discards: the value is 0 on
  a syntax error (an empty input, a byte that is not a decimal digit) and the largest
  64-bit value when the number does not fit.
\<close>

definition maxUint64 :: nat where
  "maxUint64 = 0xFFFFFFFFFFFFFFFF"

fun parseUintLoop :: "nat \<Rightarrow> string \<Rightarrow> nat" where
  "parseUintLoop n [] = n"
| "parseUintLoop n (c # cs) =
     (if \<not> isDigit (byte c) then 0
      else if n \<ge> maxUint64 div 10 + 1 then maxUint64
      else let n1 = n * 10 + (byte c - 0x30) in
        if n1 > maxUint64 then maxUint64 else parseUintLoop n1 cs)"

definition ParseUint :: "string \<Rightarrow> nat" where
  "ParseUint s = (if s = [] then 0 else parseUintLoop 0 s)"

definition maxPort :: nat where
  "maxPort = 65535"

definition validatePort :: "string \<Rightarrow> string \<Rightarrow> uri_error option" where
  "validatePort prt hst =
     (if \<not> isNumerical prt then Some ErrInvalidPort
      else if hst = []
      then Some (errorsJoin [ErrMissingHost,
             Errorf ''whenever a port is specified, a host part must be present''])
      else let portNum = ParseUint prt in
        if portNum > maxPort
        then Some (errorsJoin [ErrInvalidPort, Errorf ''a valid port lies in the range (0-%d)''])
        else None)"

definition flagSet :: "options \<Rightarrow> 16 word \<Rightarrow> bool" where
  "flagSet ops flag = (validationFlags ops AND flag > 0)"

definition validateForScheme ::
  "environment \<Rightarrow> Authority \<Rightarrow> string \<Rightarrow> options \<Rightarrow> ipType \<times> uri_error option" where
  "validateForScheme E a sch ops =
     (case (if path a \<noteq> [] \<and> flagSet ops flagValidatePath then validatePath E a (path a)
            else None) of
        Some e \<Rightarrow> (noIP, Some e)
      | None \<Rightarrow>
          (case (if host a \<noteq> [] \<and> flagSet ops flagValidateHost
                 then validateHost E (host a) (isIPv6 (ip a)) sch
                 else (noIP, None)) of
             (ipt, Some e) \<Rightarrow> (ipt, Some e)
           | (ipt, None) \<Rightarrow>
               (case (if port a \<noteq> [] \<and> flagSet ops flagValidatePort
                      then validatePort (port a) (host a) else None) of
                  Some e \<Rightarrow> (ipt, Some e)
                | None \<Rightarrow>
                    (case (if userinfo a \<noteq> [] \<and> flagSet ops flagValidateUserInfo
                           then validateUserInfo E (userinfo a) else None) of
                       Some e \<Rightarrow> (ipt, Some e)
                     | None \<Rightarrow> (ipt, None)))))"

definition validate :: "environment \<Rightarrow> URI \<Rightarrow> options \<Rightarrow> ipType \<times> uri_error option" where
  "validate E u ops =
     (case (if scheme u \<noteq> [] \<and> flagSet ops flagValidateScheme then validateScheme (scheme u)
            else None) of
        Some e \<Rightarrow> (noIP, Some e)
      | None \<Rightarrow>
          (case (if query u \<noteq> [] \<and> flagSet ops flagValidateQuery
                 then validateQuery E (query u) else None) of
             Some e \<Rightarrow> (noIP, Some e)
           | None \<Rightarrow>
               (case (if fragment u \<noteq> [] \<and> flagSet ops flagValidateFragment
                      then validateFragment E (fragment u) else None) of
                  Some e \<Rightarrow> (noIP, Some e)
                | None \<Rightarrow>
                    if hierPart u \<noteq> [] then validateForScheme E (authority u) (scheme u) ops
                    else (noIP, None))))"

section \<open>The decomposer\<close>

text \<open>
  Every successful decomposition ends the same way in the source: the value is built, its
  validation sets the error and the IP type, and the error is copied to the authority.
  \<open>validated\<close> is that ending; \<open>failed\<close> is the ending \<open>return URI{err: err}, err\<close>.
\<close>

definition failed :: "uri_error \<Rightarrow> URI \<times> uri_error option" where
  "failed e = (emptyURI\<lparr>err := Some e\<rparr>, Some e)"

definition validated :: "environment \<Rightarrow> options \<Rightarrow> URI \<Rightarrow> URI \<times> uri_error option" where
  "validated E ops u =
     (let r = validate E u ops;
          u' = u\<lparr>err := snd r, authority := (authority u)\<lparr>ip := fst r, aerr := snd r\<rparr>\<rparr>
      in (u', err u'))"

text \<open>
  \<open>parseFrom\<close> is the part of \<open>parse\<close> that follows the \<open>switch\<close> on the scheme: it
  receives the scheme found so far and the three marker positions.
\<close>

definition parseFrom ::
  "environment \<Rightarrow> string \<Rightarrow> options \<Rightarrow> string \<Rightarrow> int \<Rightarrow> int \<Rightarrow> int \<Rightarrow> URI \<times> uri_error option" where
  "parseFrom E raw ops sch schemeEnd hierPartEnd0 queryEnd =
     (let curr = schemeEnd + 1 in
      if hierPartEnd0 = len raw - 1 \<or> (hierPartEnd0 < 0 \<and> queryEnd < 0) then
        let hierPartEnd = (if hierPartEnd0 < 0 then len raw else hierPartEnd0) in
        (case parseAuthority (slice raw curr hierPartEnd) of
           Inl e \<Rightarrow> failed (errorsJoin [ErrInvalidURI, e])
         | Inr a \<Rightarrow>
             validated E ops
               (emptyURI\<lparr>scheme := sch, hierPart := slice raw curr hierPartEnd, authority := a\<rparr>))
      else
        (case
           (if hierPartEnd0 > 0 then
              (case parseAuthority (slice raw curr hierPartEnd0) of
                 Inl e \<Rightarrow> Inl (errorsJoin [ErrInvalidURI, e])
               | Inr a \<Rightarrow>
                   Inr (slice raw curr hierPartEnd0, a,
                        (if hierPartEnd0 + 1 < len raw then
                           if queryEnd < 0 then sliceFrom raw (hierPartEnd0 + 1)
                           else if hierPartEnd0 < queryEnd - 1
                           then slice raw (hierPartEnd0 + 1) queryEnd
                           else []
                         else []),
                        hierPartEnd0 + 1))
            else Inr ([], emptyAuthority, [], curr))
         of
           Inl e \<Rightarrow> failed e
         | Inr (hier1, a1, qry, curr1) \<Rightarrow>
             if queryEnd = len raw - 1 \<and> hierPartEnd0 < 0 then
               (case parseAuthority (slice raw curr1 queryEnd) of
                  Inl e \<Rightarrow> failed (errorsJoin [ErrInvalidURI, e])
                | Inr a \<Rightarrow>
                    validated E ops
                      (emptyURI\<lparr>scheme := sch, hierPart := slice raw curr1 queryEnd,
                                authority := a, query := qry\<rparr>))
             else
               (case
                  (if queryEnd > 0 then
                     (case
                        (if hierPartEnd0 < 0 then
                           (case parseAuthority (slice raw curr1 queryEnd) of
                              Inl e \<Rightarrow> Inl (errorsJoin [ErrInvalidURI, e])
                            | Inr a \<Rightarrow> Inr (slice raw curr1 queryEnd, a))
                         else Inr (hier1, a1))
                      of
                        Inl e \<Rightarrow> Inl e
                      | Inr (hier2, a2) \<Rightarrow>
                          Inr (hier2, a2,
                               (if queryEnd + 1 < len raw then sliceFrom raw (queryEnd + 1)
                                else [])))
                   else Inr (hier1, a1, []))
                of
                  Inl e \<Rightarrow> failed e
                | Inr (hier2, a2, frg) \<Rightarrow>
                    validated E ops
                      (emptyURI\<lparr>scheme := sch, hierPart := hier2, query := qry,
                                fragment := frg, authority := a2\<rparr>))))"

definition parse :: "environment \<Rightarrow> string \<Rightarrow> options \<Rightarrow> URI \<times> uri_error option" where
  "parse E raw ops =
     (let schemeEnd = IndexByte raw (CHR '':'');
          hierPartEnd0 = IndexByte raw (CHR ''?'');
          queryEnd = IndexByte raw (CHR ''#'')
      in
      if schemeEnd = 0 \<or> hierPartEnd0 = 0 \<or> queryEnd = 0
      then failed (errorsJoin [ErrInvalidURI,
             Errorf ''URI cannot start by a %q, %q or %q mark''])
      else if schemeEnd = 1
      then failed (errorsJoin [ErrInvalidScheme,
             Errorf ''scheme has a minimum length of 2 characters''])
      else if hierPartEnd0 = 1 \<or> queryEnd = 1
      then failed (errorsJoin [ErrInvalidURI,
             Errorf ''invalid combination of start markers, near: %q''])
      else if hierPartEnd0 > 0 \<and> hierPartEnd0 < schemeEnd \<or> queryEnd > 0 \<and> queryEnd < schemeEnd
      then failed (errorsJoin [ErrInvalidURI,
             Errorf ''URI part markers %q,%q,%q are in an incorrect order, near: %q''])
      else
        let hierPartEnd = (if queryEnd > 0 \<and> queryEnd < hierPartEnd0 then queryEnd
                           else hierPartEnd0);
            isRelative = HasPrefix raw authorityPrefix
        in
        if schemeEnd > 0 \<and> \<not> isRelative then
          if schemeEnd + 1 = len raw then
            let u = emptyURI\<lparr>scheme := slice raw 0 schemeEnd\<rparr>;
                r = validate E u ops;
                u' = u\<lparr>err := snd r, authority := (authority u)\<lparr>ip := fst r\<rparr>\<rparr>
            in (u', err u')
          else parseFrom E raw ops (slice raw 0 schemeEnd) schemeEnd hierPartEnd queryEnd
        else if \<not> withURIReference ops
        then failed (errorsJoin [ErrNoSchemeFound,
               Errorf ''for URI (not URI reference), the scheme is required''])
        else if isRelative then parseFrom E raw ops [] (-1) hierPartEnd queryEnd
        else parseFrom E raw ops [] schemeEnd hierPartEnd queryEnd)"

definition Parse :: "environment \<Rightarrow> string \<Rightarrow> Option list \<Rightarrow> URI \<times> uri_error option" where
  "Parse E raw opts = parse E raw (applyURIOptions opts)"

definition ParseReference :: "environment \<Rightarrow> string \<Rightarrow> Option list \<Rightarrow> URI \<times> uri_error option" where
  "ParseReference E raw opts = parse E raw (applyURIReferenceOptions opts)"

definition Err :: "URI \<Rightarrow> uri_error option" where
  "Err u = err u"

section \<open>Rendering\<close>

definition buildString :: "Authority \<Rightarrow> string" where
  "buildString a =
     prefix a @ userinfo a
     @ (if length (userinfo a) > 0 then ''@'' else [])
     @ (if isIPv6 (ip a) then ''['' @ host a @ '']'' else host a)
     @ (if length (port a) > 0 then '':'' else [])
     @ port a @ path a"

definition String :: "URI \<Rightarrow> string" where
  "String u =
     (if length (scheme u) > 0 then scheme u @ '':'' else [])
     @ buildString (authority u)
     @ (if length (query u) > 0 then ''?'' @ query u else [])
     @ (if length (fragment u) > 0 then ''#'' @ fragment u else [])"

section \<open>The builder\<close>

text \<open>
  \<open>path.Join\<close> and \<open>path.Clean\<close> of Go's standard library, at the level of path
  elements: empty elements and \<open>.\<close> are dropped, \<open>..\<close> removes the element before it
  (at the start of a rooted path it is dropped, at the start of a relative path it is kept),
  and an empty result is \<open>.\<close>.
\<close>

fun splitOn :: "char \<Rightarrow> string \<Rightarrow> string list" where
  "splitOn c [] = [[]]"
| "splitOn c (x # xs) =
     (if x = c then [] # splitOn c xs
      else (case splitOn c xs of y # ys \<Rightarrow> (x # y) # ys | [] \<Rightarrow> [[x]]))"

fun cleanLoop :: "bool \<Rightarrow> string list \<Rightarrow> string list \<Rightarrow> string list" where
  "cleanLoop rooted out [] = out"
| "cleanLoop rooted out (seg # segs) =
     (if seg = [] \<or> seg = ''.'' then cleanLoop rooted out segs
      else if seg = ''..'' then
        if out \<noteq> [] \<and> last out \<noteq> ''..'' then cleanLoop rooted (butlast out) segs
        else if \<not> rooted then cleanLoop rooted (out @ [''..'']) segs
        else cleanLoop rooted out segs
      else cleanLoop rooted (out @ [seg]) segs)"

fun joinWith :: "string \<Rightarrow> string list \<Rightarrow> string" where
  "joinWith sep [] = []"
| "joinWith sep [x] = x"
| "joinWith sep (x # y # ys) = x @ sep @ joinWith sep (y # ys)"

definition path_Clean :: "string \<Rightarrow> string" where
  "path_Clean p =
     (if p = [] then ''.''
      else
        let rooted = (p ! 0 = CHR ''/'');
            out = (if rooted then ''/'' else []) @ joinWith ''/'' (cleanLoop rooted [] (splitOn (CHR ''/'') p))
        in if out = [] then ''.'' else out)"

fun joinLoop :: "string \<Rightarrow> string list \<Rightarrow> string" where
  "joinLoop buf [] = buf"
| "joinLoop buf (e # es) =
     (if length buf > 0 \<or> e \<noteq> []
      then joinLoop ((if length buf > 0 then buf @ ''/'' else buf) @ e) es
      else joinLoop buf es)"

definition path_Join :: "string list \<Rightarrow> string" where
  "path_Join elem = (if sum_list (map length elem) = 0 then [] else path_Clean (joinLoop [] elem))"

definition withEnsuredAuthority :: "Authority \<Rightarrow> Authority" where
  "withEnsuredAuthority a =
     (if userinfo a \<noteq> [] \<or> host a \<noteq> [] \<or> port a \<noteq> [] then a\<lparr>prefix := authorityPrefix\<rparr>
      else a)"

text \<open>
  Each builder method ends with \<open>u.authority.ipType, u.err = u.validate(o)\<close>; those that
  touch the authority also copy the error to it.
\<close>

definition revalidate :: "environment \<Rightarrow> options \<Rightarrow> URI \<Rightarrow> URI" where
  "revalidate E ops u =
     (let r = validate E u ops in u\<lparr>err := snd r, authority := (authority u)\<lparr>ip := fst r\<rparr>\<rparr>)"

definition revalidateAuthority :: "environment \<Rightarrow> options \<Rightarrow> URI \<Rightarrow> URI" where
  "revalidateAuthority E ops u =
     (let r = validate E u ops
      in u\<lparr>err := snd r, authority := (authority u)\<lparr>ip := fst r, aerr := snd r\<rparr>\<rparr>)"

definition WithScheme :: "environment \<Rightarrow> URI \<Rightarrow> string \<Rightarrow> Option list \<Rightarrow> URI" where
  "WithScheme E u sch opts =
     (if Err u \<noteq> None then u
      else
        let ops = applyURIOptions
              (opts @ [withValidationFlags (flagValidateScheme OR flagValidateHost)])
        in revalidate E ops (u\<lparr>scheme := sch\<rparr>))"

definition WithAuthority :: "environment \<Rightarrow> URI \<Rightarrow> Authority \<Rightarrow> Option list \<Rightarrow> URI" where
  "WithAuthority E u a opts =
     (if Err u \<noteq> None then u
      else
        let ops = applyURIOptions
              (opts @ [withValidationFlags
                 (flagValidateHost OR flagValidatePort OR flagValidateUserInfo OR flagValidatePath)])
        in revalidateAuthority E ops (u\<lparr>authority := a\<rparr>))"

definition WithUserInfo :: "environment \<Rightarrow> URI \<Rightarrow> string \<Rightarrow> Option list \<Rightarrow> URI" where
  "WithUserInfo E u usr opts =
     (if Err u \<noteq> None then u
      else
        let ops = applyURIOptions (opts @ [withValidationFlags flagValidateUserInfo])
        in revalidateAuthority E ops
             (u\<lparr>authority := (withEnsuredAuthority (authority u))\<lparr>userinfo := usr\<rparr>\<rparr>))"

definition WithHost :: "environment \<Rightarrow> URI \<Rightarrow> string \<Rightarrow> Option list \<Rightarrow> URI" where
  "WithHost E u hst opts =
     (if Err u \<noteq> None then u
      else
        let ops = applyURIOptions
              (opts @ [withValidationFlags (flagValidateHost OR flagValidatePort)])
        in revalidateAuthority E ops
             (u\<lparr>authority := (withEnsuredAuthority (authority u))\<lparr>host := hst\<rparr>\<rparr>))"

definition WithPort :: "environment \<Rightarrow> URI \<Rightarrow> string \<Rightarrow> Option list \<Rightarrow> URI" where
  "WithPort E u prt opts =
     (if Err u \<noteq> None then u
      else
        let ops = applyURIOptions (opts @ [withValidationFlags flagValidatePort])
        in revalidateAuthority E ops
             (u\<lparr>authority := (withEnsuredAuthority (authority u))\<lparr>port := prt\<rparr>\<rparr>))"

definition WithPath :: "environment \<Rightarrow> URI \<Rightarrow> string \<Rightarrow> Option list \<Rightarrow> URI" where
  "WithPath E u pth opts =
     (if Err u \<noteq> None then u
      else
        let ops = applyURIOptions (opts @ [withValidationFlags flagValidatePath])
        in revalidateAuthority E ops
             (u\<lparr>authority := (withEnsuredAuthority (authority u))\<lparr>path := pth\<rparr>\<rparr>))"

definition WithQuery :: "environment \<Rightarrow> URI \<Rightarrow> string \<Rightarrow> Option list \<Rightarrow> URI" where
  "WithQuery E u qry opts =
     (if Err u \<noteq> None then u
      else
        let ops = applyURIOptions (opts @ [withValidationFlags flagValidateQuery])
        in revalidate E ops (u\<lparr>query := qry\<rparr>))"

definition WithFragment :: "environment \<Rightarrow> URI \<Rightarrow> string \<Rightarrow> Option list \<Rightarrow> URI" where
  "WithFragment E u frg opts =
     (if Err u \<noteq> None then u
      else
        let ops = applyURIOptions (opts @ [withValidationFlags flagValidateFragment])
        in revalidate E ops (u\<lparr>fragment := frg\<rparr>))"

definition WithJoinPath :: "environment \<Rightarrow> URI \<Rightarrow> string list \<Rightarrow> URI" where
  "WithJoinPath E u elems =
     (if Err u \<noteq> None then u
      else
        let ops = applyURIOptions [withValidationFlags flagValidatePath];
            a = withEnsuredAuthority (authority u);
            full = path a # elems
        in revalidateAuthority E ops (u\<lparr>authority := a\<lparr>path := path_Join full\<rparr>\<rparr>))"

section \<open>An environment for closed examples\<close>

text \<open>
  Closed examples need the parameters fixed.  \<open>asciiEnv\<close> knows no letter and no digit
  above Latin-1, uses the default DNS classification, and has IP validators that accept
  no address: the examples below have hosts that are names, not addresses.
\<close>

definition noAddress :: "string \<Rightarrow> uri_error option" where
  "noAddress h = Some (Errorf ''not an address'')"

definition asciiEnv :: environment where
  "asciiEnv =
     \<lparr>LetterTable = (\<lambda>r. False), DigitTable = (\<lambda>r. False),
      UsesDNSHostValidation = defaultUsesDNSHostValidation,
      validateIPv4 = noAddress, validateIPv6 = noAddress, validateIPvFuture = noAddress\<rparr>"

section \<open>The returned error is the embedded error\<close>

lemma failed_err: "err (fst (failed e)) = snd (failed e)"
  by (simp add: failed_def)

lemma validated_err: "err (fst (validated E ops u)) = snd (validated E ops u)"
  by (simp add: validated_def Let_def)

lemma parseFrom_err:
  "err (fst (parseFrom E raw ops sch schemeEnd hierPartEnd queryEnd))
     = snd (parseFrom E raw ops sch schemeEnd hierPartEnd queryEnd)"
  unfolding parseFrom_def Let_def
  by (simp add: failed_err validated_err split: sum.splits prod.splits)

lemma parse_err: "err (fst (parse E raw ops)) = snd (parse E raw ops)"
  unfolding parse_def Let_def
  by (simp add: failed_err parseFrom_err)

text \<open>
  C9: for every raw input and every option list, \<open>Parse\<close> and \<open>ParseReference\<close> return a
  pair whose value embeds exactly the returned error: \<open>u.Err()\<close> is the returned \<open>err\<close>,
  on failure and on success (where both are nil).
\<close>

theorem C9_returned_error_is_embedded:
  "Err (fst (Parse E raw opts)) = snd (Parse E raw opts)
   \<and> Err (fst (ParseReference E raw opts)) = snd (ParseReference E raw opts)"
  by (simp add: Err_def Parse_def ParseReference_def parse_err)

theorem C9_witness:
  "Err (fst (Parse asciiEnv ''#'' [])) = snd (Parse asciiEnv ''#'' [])
   \<and> Err (fst (ParseReference asciiEnv ''#'' [])) = snd (ParseReference asciiEnv ''#'' [])"
  by (rule C9_returned_error_is_embedded)

section \<open>The builder on a value that carries an error\<close>

lemmas builder_defs = WithScheme_def WithAuthority_def WithUserInfo_def WithHost_def
  WithPort_def WithPath_def WithQuery_def WithFragment_def WithJoinPath_def

text \<open>
  C8: on a value whose error is set, every builder operation returns the value unchanged
  (no component is replaced, no validation runs); hence a builder stores a fresh error
  only when the previous error was nil.
\<close>

theorem C8_builders_keep_an_erroring_value:
  "(Err u \<noteq> None \<longrightarrow>
      WithScheme E u sch opts = u \<and> WithAuthority E u a opts = u
      \<and> WithUserInfo E u usr opts = u \<and> WithHost E u hst opts = u
      \<and> WithPort E u prt opts = u \<and> WithPath E u pth opts = u
      \<and> WithQuery E u qry opts = u \<and> WithFragment E u frg opts = u
      \<and> WithJoinPath E u elems = u)
   \<and> ((Err (WithScheme E u sch opts) \<noteq> Err u \<or> Err (WithAuthority E u a opts) \<noteq> Err u
       \<or> Err (WithUserInfo E u usr opts) \<noteq> Err u \<or> Err (WithHost E u hst opts) \<noteq> Err u
       \<or> Err (WithPort E u prt opts) \<noteq> Err u \<or> Err (WithPath E u pth opts) \<noteq> Err u
       \<or> Err (WithQuery E u qry opts) \<noteq> Err u \<or> Err (WithFragment E u frg opts) \<noteq> Err u
       \<or> Err (WithJoinPath E u elems) \<noteq> Err u)
      \<longrightarrow> Err u = None)"
  by (auto simp add: builder_defs)

theorem C8_witness:
  "Err (emptyURI\<lparr>err := Some ErrInvalidURI\<rparr>) \<noteq> None
   \<and> WithScheme asciiEnv (emptyURI\<lparr>err := Some ErrInvalidURI\<rparr>) ''http'' []
       = emptyURI\<lparr>err := Some ErrInvalidURI\<rparr>
   \<and> WithHost asciiEnv (emptyURI\<lparr>err := Some ErrInvalidURI\<rparr>) ''example.com'' []
       = emptyURI\<lparr>err := Some ErrInvalidURI\<rparr>
   \<and> WithJoinPath asciiEnv (emptyURI\<lparr>err := Some ErrInvalidURI\<rparr>) [''a'', ''b'']
       = emptyURI\<lparr>err := Some ErrInvalidURI\<rparr>"
proof -
  have h: "Err (emptyURI\<lparr>err := Some ErrInvalidURI\<rparr>) \<noteq> None"
    by (simp add: Err_def)
  from h C8_builders_keep_an_erroring_value
         [of "emptyURI\<lparr>err := Some ErrInvalidURI\<rparr>" asciiEnv "''http''" "[]" _
             _ "''example.com''" _ _ _ _ "[''a'', ''b'']"]
  show ?thesis by blast
qed

lemma DecodeRune_ascii: "b < 0x80 \<Longrightarrow> DecodeRune (b # bs) = (b, 1)"
  by (simp add: DecodeRune_def)

lemma DecodeRune_invalid_lead:
  "0x80 \<le> b \<Longrightarrow> b < 0xC2 \<or> 0xF4 < b \<Longrightarrow> DecodeRune (b # bs) = (RuneError, 1)"
  by (simp add: DecodeRune_def)

lemma DecodeRune_two:
  assumes "0xC2 \<le> b" "b < 0xE0"
  shows "DecodeRune (b # bs) =
     (if length bs < 1 then (RuneError, 1)
      else if bs ! 0 < 0x80 \<or> 0xBF < bs ! 0 then (RuneError, 1)
      else ((b mod 32) * 64 + bs ! 0 mod 64, 2))"
proof -
  from assms have "utf8_seqLength b = 2" "utf8_acceptRange b = (0x80, 0xBF)"
    by (simp_all add: utf8_seqLength_def utf8_acceptRange_def)
  with assms show ?thesis
    by (simp add: DecodeRune_def Let_def)
qed

lemma DecodeRune_three:
  assumes "0xE0 \<le> b" "b < 0xF0"
  shows "DecodeRune (b # bs) =
     (if length bs < 2 then (RuneError, 1)
      else if bs ! 0 < fst (utf8_acceptRange b) \<or> snd (utf8_acceptRange b) < bs ! 0
      then (RuneError, 1)
      else if bs ! 1 < 0x80 \<or> 0xBF < bs ! 1 then (RuneError, 1)
      else ((b mod 16) * 4096 + (bs ! 0 mod 64) * 64 + bs ! 1 mod 64, 3))"
proof -
  from assms have "utf8_seqLength b = 3"
    by (simp_all add: utf8_seqLength_def)
  with assms show ?thesis
    by (cases bs) (simp_all add: DecodeRune_def Let_def)
qed

lemma DecodeRune_four:
  assumes "0xF0 \<le> b" "b \<le> 0xF4"
  shows "DecodeRune (b # bs) =
     (if length bs < 3 then (RuneError, 1)
      else if bs ! 0 < fst (utf8_acceptRange b) \<or> snd (utf8_acceptRange b) < bs ! 0
      then (RuneError, 1)
      else if bs ! 1 < 0x80 \<or> 0xBF < bs ! 1 then (RuneError, 1)
      else if bs ! 2 < 0x80 \<or> 0xBF < bs ! 2 then (RuneError, 1)
      else ((b mod 8) * 262144 + (bs ! 0 mod 64) * 4096 + (bs ! 1 mod 64) * 64 + bs ! 2 mod 64, 4))"
proof -
  from assms have "utf8_seqLength b = 4"
    by (simp_all add: utf8_seqLength_def)
  with assms show ?thesis
    by (cases bs) (simp_all add: DecodeRune_def Let_def numeral_3_eq_3)
qed

lemma mod_offset:
  fixes b :: nat
  assumes "m * q \<le> b" "b < m * q + m"
  shows "b mod m = b - m * q"
proof -
  define k where "k = b - m * q"
  with assms have k: "b = q * m + k" "k < m" by (simp_all add: mult.commute)
  show ?thesis unfolding k(1) using k(2) by (simp add: mult.commute)
qed

lemma mod32_lead: "0xC0 \<le> b \<Longrightarrow> b < 0xE0 \<Longrightarrow> (b::nat) mod 32 = b - 0xC0"
  using mod_offset [of 32 6 b] by simp

lemma mod16_lead: "0xE0 \<le> b \<Longrightarrow> b < 0xF0 \<Longrightarrow> (b::nat) mod 16 = b - 0xE0"
  using mod_offset [of 16 14 b] by simp

lemma mod8_lead: "0xF0 \<le> b \<Longrightarrow> b < 0xF8 \<Longrightarrow> (b::nat) mod 8 = b - 0xF0"
  using mod_offset [of 8 30 b] by simp

lemma mod64_cont: "0x80 \<le> b \<Longrightarrow> b \<le> 0xBF \<Longrightarrow> (b::nat) mod 64 = b - 0x80"
  using mod_offset [of 64 2 b] by simp

lemma DecodeRune_high: "0x80 \<le> b \<Longrightarrow> 0x80 \<le> fst (DecodeRune (b # bs))"
proof -
  assume hi: "0x80 \<le> b"
  consider (inv) "b < 0xC2 \<or> 0xF4 < b" | (two) "0xC2 \<le> b" "b < 0xE0"
    | (three) "0xE0 \<le> b" "b < 0xF0" | (four) "0xF0 \<le> b" "b \<le> 0xF4"
    by linarith
  then show ?thesis
  proof cases
    case inv
    with hi show ?thesis by (simp add: DecodeRune_invalid_lead RuneError_def)
  next
    case two
    then have "2 * 64 \<le> (b - 0xC0) * 64" by (intro mult_le_mono1) simp
    with two show ?thesis
      by (simp add: DecodeRune_two [OF two] RuneError_def mod32_lead)
  next
    case three
    show ?thesis
    proof (cases "b = 0xE0")
      case True
      have "\<not> bs ! 0 < 0xA0 \<Longrightarrow> 32 * 64 \<le> (bs ! 0 - 0x80) * 64"
        by (intro mult_le_mono1) simp
      then show ?thesis
        unfolding DecodeRune_three [OF three]
        using True by (auto simp add: RuneError_def utf8_acceptRange_def mod64_cont not_less)
    next
      case False
      with three have "1 * 4096 \<le> (b - 0xE0) * 4096" by (intro mult_le_mono1) simp
      with three show ?thesis
        by (simp add: DecodeRune_three [OF three] RuneError_def mod16_lead)
    qed
  next
    case four
    show ?thesis
    proof (cases "b = 0xF0")
      case True
      have "\<not> bs ! 0 < 0x90 \<Longrightarrow> 16 * 4096 \<le> (bs ! 0 - 0x80) * 4096"
        by (intro mult_le_mono1) simp
      then show ?thesis
        unfolding DecodeRune_four [OF four]
        using True by (auto simp add: RuneError_def utf8_acceptRange_def mod64_cont not_less)
    next
      case False
      with four have "1 * 262144 \<le> (b - 0xF0) * 262144" by (intro mult_le_mono1) simp
      with four show ?thesis
        by (simp add: DecodeRune_four [OF four] RuneError_def mod8_lead)
    qed
  qed
qed

section \<open>The port validator\<close>

text \<open>
  The words of the specification: a port is a string of ASCII decimal digits, read as a
  decimal number.
\<close>

definition allDigits :: "string \<Rightarrow> bool" where
  "allDigits s = list_all (\<lambda>c. isDigit (byte c)) s"

definition decimalFrom :: "nat \<Rightarrow> string \<Rightarrow> nat" where
  "decimalFrom n s = foldl (\<lambda>n c. n * 10 + (byte c - 0x30)) n s"

definition decimalValue :: "string \<Rightarrow> nat" where
  "decimalValue s = decimalFrom 0 s"

lemma isNotDigit_first:
  "isNotDigit (fst (DecodeRuneInString (c # cs))) = (\<not> isDigit (byte c))"
proof (cases "byte c < 0x80")
  case True
  then show ?thesis
    by (auto simp: DecodeRuneInString_def DecodeRune_ascii isNotDigit_def isDigit_def)
next
  case False
  then have "0x80 \<le> fst (DecodeRune (byte c # map byte cs))"
    by (intro DecodeRune_high) simp
  with False show ?thesis
    by (auto simp: DecodeRuneInString_def isNotDigit_def isDigit_def)
qed

lemma size_first_ascii:
  "byte c < 0x80 \<Longrightarrow> snd (DecodeRuneInString (c # cs)) = 1"
  by (simp add: DecodeRuneInString_def DecodeRune_ascii)

lemma IndexFuncFrom_digits:
  "(IndexFuncFrom isNotDigit s pos = -1) = allDigits (drop pos s)"
proof (induction isNotDigit s pos rule: IndexFuncFrom.induct)
  case (1 s pos)
  show ?case
  proof (cases "pos < length s")
    case False
    then show ?thesis by (simp add: IndexFuncFrom.simps [of _ s pos] allDigits_def)
  next
    case True
    then have d: "drop pos s = s ! pos # drop (Suc pos) s"
      by (simp add: Cons_nth_drop_Suc)
    show ?thesis
    proof (cases "isDigit (byte (s ! pos))")
      case False
      with True d show ?thesis
        by (simp add: IndexFuncFrom.simps [of _ s pos] isNotDigit_first allDigits_def)
    next
      case dg: True
      then have "byte (s ! pos) < 0x80" by (simp add: isDigit_def)
      then have sz: "snd (DecodeRuneInString (drop pos s)) = 1"
        using d size_first_ascii [of "s ! pos" "drop (Suc pos) s"] by simp
      from dg d have nn: "\<not> isNotDigit (fst (DecodeRuneInString (drop pos s)))"
        using isNotDigit_first [of "s ! pos" "drop (Suc pos) s"] by simp
      from "1.hyps" [OF True nn] sz
      have "(IndexFuncFrom isNotDigit s (Suc pos) = -1) = allDigits (drop (Suc pos) s)"
        by simp
      moreover have "allDigits (drop pos s) = allDigits (drop (Suc pos) s)"
        using dg by (subst d) (simp add: allDigits_def)
      ultimately show ?thesis
        using True nn sz by (simp add: IndexFuncFrom.simps [of _ s pos])
    qed
  qed
qed

lemma isNumerical_allDigits: "isNumerical s = allDigits s"
  by (simp add: isNumerical_def IndexFunc_def IndexFuncFrom_digits)

lemma decimalFrom_ge: "n \<le> decimalFrom n s"
proof (induction s arbitrary: n)
  case Nil
  then show ?case by (simp add: decimalFrom_def)
next
  case (Cons c cs)
  have "n \<le> n * 10 + (byte c - 0x30)" by simp
  also have "\<dots> \<le> decimalFrom (n * 10 + (byte c - 0x30)) cs" by (rule Cons.IH)
  finally show ?case by (simp add: decimalFrom_def)
qed

lemma parseUintLoop_decimal:
  "allDigits s \<Longrightarrow> n \<le> maxUint64 \<Longrightarrow>
     parseUintLoop n s = min (decimalFrom n s) maxUint64"
proof (induction s arbitrary: n)
  case Nil
  then show ?case by (simp add: decimalFrom_def)
next
  case (Cons c cs)
  define n1 where "n1 = n * 10 + (byte c - 0x30)"
  from Cons.prems have dc: "isDigit (byte c)" and rest: "allDigits cs"
    by (simp_all add: allDigits_def)
  have eq: "parseUintLoop n (c # cs) =
              (if n \<ge> maxUint64 div 10 + 1 then maxUint64
               else if n1 > maxUint64 then maxUint64 else parseUintLoop n1 cs)"
    by (simp only: parseUintLoop.simps Let_def n1_def dc simp_thms if_False)
  have step: "decimalFrom n (c # cs) = decimalFrom n1 cs"
    by (simp add: decimalFrom_def n1_def)
  have ge: "n1 \<le> decimalFrom n1 cs" by (rule decimalFrom_ge)
  have n10: "n * 10 \<le> n1" by (simp add: n1_def)
  show ?case
  proof (cases "n \<ge> maxUint64 div 10 + 1")
    case True
    then have "maxUint64 < n * 10" by (simp add: maxUint64_def)
    with ge n10 have "maxUint64 < decimalFrom n1 cs" by linarith
    with True show ?thesis unfolding eq step by simp
  next
    case False
    show ?thesis
    proof (cases "n1 > maxUint64")
      case True
      with ge have "maxUint64 < decimalFrom n1 cs" by linarith
      with True False show ?thesis unfolding eq step by simp
    next
      case n1: False
      then have "n1 \<le> maxUint64" by simp
      from Cons.IH [OF rest this] n1 False show ?thesis unfolding eq step by simp
    qed
  qed
qed

lemma ParseUint_decimal: "allDigits s \<Longrightarrow> ParseUint s = min (decimalValue s) maxUint64"
  by (cases "s = []")
     (simp_all add: ParseUint_def decimalValue_def parseUintLoop_decimal,
      simp add: decimalFrom_def maxUint64_def)

lemma ParseUint_over: "allDigits s \<Longrightarrow> (ParseUint s > maxPort) = (decimalValue s > maxPort)"
  by (simp add: ParseUint_decimal maxPort_def maxUint64_def)

text \<open>
  C6, as the code has it.  \<open>validatePort\<close> checks in this order: a port with a byte that
  is not an ASCII decimal digit yields \<open>ErrInvalidPort\<close>, whatever the host; an all-digit
  port with an empty host yields \<open>ErrMissingHost\<close>; an all-digit port with a host and a
  value above 65535 yields \<open>ErrInvalidPort\<close>.  So the port is accepted if and only if
  the host is not empty and the port is a (possibly empty) string of ASCII decimal digits
  whose value is at most 65535.
\<close>

theorem C6_port_validation:
  "(validatePort p h = None \<longleftrightarrow> allDigits p \<and> h \<noteq> [] \<and> decimalValue p \<le> 65535)
   \<and> (\<not> allDigits p \<longrightarrow> validatePort p h = Some ErrInvalidPort)
   \<and> (allDigits p \<and> h = [] \<longrightarrow>
        (\<exists>e. validatePort p h = Some e \<and> errors_Is e ErrMissingHost
           \<and> \<not> errors_Is e ErrInvalidPort))
   \<and> (allDigits p \<and> h \<noteq> [] \<and> decimalValue p > 65535 \<longrightarrow>
        (\<exists>e. validatePort p h = Some e \<and> errors_Is e ErrInvalidPort))"
proof (cases "allDigits p")
  case False
  then show ?thesis by (simp add: validatePort_def isNumerical_allDigits)
next
  case True
  then have "(ParseUint p > maxPort) = (decimalValue p > 65535)"
    by (simp add: ParseUint_over) (simp add: maxPort_def)
  with True show ?thesis
    by (auto simp add: validatePort_def isNumerical_allDigits Let_def errorsJoin_def)
qed

theorem C6_witness:
  "allDigits ''8080'' \<and> decimalValue ''8080'' \<le> 65535 \<and> validatePort ''8080'' ''h'' = None
   \<and> \<not> allDigits ''8a'' \<and> validatePort ''8a'' ''h'' = Some ErrInvalidPort
   \<and> allDigits ''80''
   \<and> (\<exists>e. validatePort ''80'' [] = Some e \<and> errors_Is e ErrMissingHost
         \<and> \<not> errors_Is e ErrInvalidPort)
   \<and> allDigits ''70000'' \<and> decimalValue ''70000'' > 65535
   \<and> (\<exists>e. validatePort ''70000'' ''h'' = Some e \<and> errors_Is e ErrInvalidPort)"
proof -
  have a: "allDigits ''8080''" "allDigits ''80''" "allDigits ''70000''" "\<not> allDigits ''8a''"
    by (simp_all add: allDigits_def isDigit_def byte_def)
  have v: "decimalValue ''8080'' \<le> 65535" "decimalValue ''70000'' > 65535"
    by (simp_all add: decimalValue_def decimalFrom_def byte_def)
  from a v C6_port_validation [of "''8080''" "''h''"] C6_port_validation [of "''8a''" "''h''"]
    C6_port_validation [of "''80''" "[]"] C6_port_validation [of "''70000''" "''h''"]
  show ?thesis by simp
qed

theorem C6_counterexample:
  "''8a'' \<noteq> [] \<and> validatePort ''8a'' [] = Some ErrInvalidPort
   \<and> \<not> errors_Is ErrInvalidPort ErrMissingHost"
proof -
  have "\<not> allDigits ''8a''" by (simp add: allDigits_def isDigit_def byte_def)
  then show ?thesis by (simp add: validatePort_def isNumerical_allDigits)
qed

section \<open>Percent-escapes and UTF-8\<close>

text \<open>
  The words of the specification: the decoder produces the Unicode scalar whose UTF-8
  encoding is the byte sequence of the escape.  A scalar is a code point outside the
  surrogate range; \<open>utf8Encoding\<close> is its encoding (RFC 3629).
\<close>

definition isScalar :: "rune \<Rightarrow> bool" where
  "isScalar r = (r < 0xD800 \<or> (0xE000 \<le> r \<and> r \<le> 0x10FFFF))"

definition utf8Encoding :: "rune \<Rightarrow> nat list" where
  "utf8Encoding r =
     (if r < 0x80 then [r]
      else if r < 0x800 then [0xC0 + r div 64, 0x80 + r mod 64]
      else if r < 0x10000 then [0xE0 + r div 4096, 0x80 + (r div 64) mod 64, 0x80 + r mod 64]
      else [0xF0 + r div 262144, 0x80 + (r div 4096) mod 64, 0x80 + (r div 64) mod 64,
            0x80 + r mod 64])"

lemmas char_defs = byte_def isHex_def isDigit_def unhex_def

text \<open>
  C4 at the replacement character: \<open>%EF%BF%BD\<close> is the escape of the UTF-8 encoding of
  the scalar \<open>U+FFFD\<close>, and \<open>unescapePercentEncoding\<close> (entered after the first \<open>%\<close>)
  answers an error: it takes the decoded rune \<open>U+FFFD\<close> for \<open>utf8.RuneError\<close>.
\<close>

theorem C4_replacement_character_is_rejected:
  "isScalar 0xFFFD \<and> utf8Encoding 0xFFFD = [0xEF, 0xBF, 0xBD]
   \<and> DecodeRune [0xEF, 0xBF, 0xBD] = (0xFFFD, 3)
   \<and> unescapePercentEncoding ''EF%BF%BD''
       = Inl (Errorf ''the escaped code points do not add up to a valid rune'')"
  by (simp add: isScalar_def utf8Encoding_def unescapePercentEncoding_def unescapeSequence_def
        char_defs DecodeRune_def utf8_seqLength_def utf8_acceptRange_def RuneError_def
        expectedEscape_def Let_def)

section \<open>Facts about positions and slices\<close>

lemma IndexByte_range: "-1 \<le> IndexByte s c \<and> IndexByte s c < len s"
  by (induction s) (auto simp: len_def Let_def)

lemma IndexByte_notin: "c \<notin> set s \<Longrightarrow> IndexByte s c = -1"
  by (induction s) (auto simp: Let_def)

lemma IndexByte_neg_iff: "(IndexByte s c < 0) = (c \<notin> set s)"
  by (induction s) (auto simp: Let_def)

lemma IndexByte_append_found: "c \<notin> set s \<Longrightarrow> IndexByte (s @ c # t) c = len s"
  by (induction s) (auto simp: len_def Let_def)

lemma IndexByte_append_in: "c \<in> set s \<Longrightarrow> IndexByte (s @ t) c = IndexByte s c"
  by (induction s) (auto simp: Let_def IndexByte_neg_iff)

lemma IndexByte_append_other:
  "c \<noteq> d \<Longrightarrow> IndexByte (s @ [d]) c = IndexByte s c"
  by (induction s) (auto simp: Let_def)

lemma IndexByte_nth: "0 \<le> IndexByte s c \<Longrightarrow> s ! nat (IndexByte s c) = c"
proof (induction s)
  case Nil
  then show ?case by simp
next
  case (Cons x xs)
  show ?case
  proof (cases "x = c")
    case True
    then show ?thesis by simp
  next
    case False
    with Cons.prems have nn: "0 \<le> IndexByte xs c" by (auto simp: Let_def split: if_splits)
    with False Cons.IH show ?thesis by (simp add: Let_def nat_add_distrib)
  qed
qed

lemma IndexByte_take: "0 \<le> IndexByte s c \<Longrightarrow> c \<notin> set (take (nat (IndexByte s c)) s)"
proof (induction s)
  case Nil
  then show ?case by simp
next
  case (Cons x xs)
  show ?case
  proof (cases "x = c")
    case True
    then show ?thesis by simp
  next
    case False
    with Cons.prems have nn: "0 \<le> IndexByte xs c" by (auto simp: Let_def split: if_splits)
    with False Cons.IH show ?thesis by (simp add: Let_def nat_add_distrib)
  qed
qed

lemma set_slice: "set (slice s a b) \<subseteq> set s"
  unfolding slice_def by (meson set_take_subset set_drop_subset subset_trans)

lemma set_sliceFrom: "set (sliceFrom s a) \<subseteq> set s"
  unfolding sliceFrom_def by (rule set_drop_subset)

lemma set_sliceTo: "set (sliceTo s a) \<subseteq> set s"
  unfolding sliceTo_def by (rule set_take_subset)

section \<open>Rendering\<close>

definition authorityChars :: "Authority \<Rightarrow> char set" where
  "authorityChars a =
     set (prefix a) \<union> set (userinfo a) \<union> set (host a) \<union> set (port a) \<union> set (path a)"

lemma set_authPath: "set (authPath h) \<subseteq> set h"
  using set_sliceFrom [of h] by (auto simp add: authPath_def Let_def)

lemma set_authRegion: "set (authRegion h) \<subseteq> set h"
  using set_sliceTo [of h] by (auto simp add: authRegion_def Let_def)

lemma set_authUser: "set (authUser h) \<subseteq> set h"
  using set_sliceTo [of h] by (auto simp add: authUser_def Let_def)

lemma set_authHostPort: "set (authHostPort h) \<subseteq> set h"
  using set_sliceFrom [of h] by (auto simp add: authHostPort_def Let_def)

lemma set_portAfter: "set (portAfter h) \<subseteq> set h"
  using set_sliceFrom [of h] by (auto simp add: portAfter_def Let_def)

lemma set_splitHostPort:
  assumes "splitHostPort h = Inr (hst, prt, v6)"
  shows "set hst \<subseteq> set h \<and> set prt \<subseteq> set h"
proof (cases "IndexByte h (CHR ''['') \<ge> 0")
  case True
  with assms have "hst = slice h (IndexByte h (CHR ''['') + 1) (IndexByte h (CHR '']''))"
    and "prt = portAfter (sliceFrom h (IndexByte h (CHR '']'') + 1))"
    by (simp_all add: splitHostPort_def Let_def split: if_splits)
  then show ?thesis
    using set_slice set_portAfter set_sliceFrom by (metis subset_trans)
next
  case False
  with assms have "hst = (if IndexByte h (CHR '':'') \<ge> 0 then sliceTo h (IndexByte h (CHR '':''))
                          else h)"
    and "prt = portAfter h"
    by (simp_all add: splitHostPort_def Let_def)
  then show ?thesis
    using set_sliceTo set_portAfter by (metis subset_refl)
qed

lemma parseAuthority_chars:
  assumes "parseAuthority h = Inr a"
  shows "authorityChars a \<subseteq> set h"
proof (cases "HasPrefix h authorityPrefix")
  case False
  with assms have "a = emptyAuthority\<lparr>path := h\<rparr>" by (simp add: parseAuthority_def)
  then show ?thesis by (simp add: authorityChars_def emptyAuthority_def)
next
  case True
  then have pre: "set authorityPrefix \<subseteq> set h"
    unfolding HasPrefix_def by (metis set_take_subset)
  define hier where "hier = drop (length authorityPrefix) h"
  have hier: "set hier \<subseteq> set h" unfolding hier_def by (rule set_drop_subset)
  from assms True obtain hst prt v6
    where sp: "splitHostPort (authHostPort (authRegion hier)) = Inr (hst, prt, v6)"
      and a: "a = \<lparr>aerr = None, prefix = authorityPrefix, userinfo = authUser (authRegion hier),
                   host = hst, port = prt, path = authPath hier, ip = noIP\<lparr>isIPv6 := v6\<rparr>\<rparr>"
    by (auto simp add: parseAuthority_def Let_def hier_def split: sum.splits)
  have reg: "set (authRegion hier) \<subseteq> set h"
    using set_authRegion hier by (rule subset_trans)
  have hp: "set (authHostPort (authRegion hier)) \<subseteq> set h"
    using set_authHostPort reg by (rule subset_trans)
  from set_splitHostPort [OF sp] hp have "set hst \<subseteq> set h" "set prt \<subseteq> set h" by auto
  moreover have "set (authUser (authRegion hier)) \<subseteq> set h"
    using set_authUser reg by (rule subset_trans)
  moreover have "set (authPath hier) \<subseteq> set h"
    using set_authPath hier by (rule subset_trans)
  ultimately show ?thesis using pre by (simp add: a authorityChars_def)
qed

lemma validated_fields:
  assumes "validated E ops u0 = (u, e)"
  shows "scheme u = scheme u0" "query u = query u0" "fragment u = fragment u0"
    "hierPart u = hierPart u0" "authorityChars (authority u) = authorityChars (authority u0)"
    "prefix (authority u) = prefix (authority u0)"
    "userinfo (authority u) = userinfo (authority u0)"
    "host (authority u) = host (authority u0)"
    "port (authority u) = port (authority u0)"
    "path (authority u) = path (authority u0)"
  using assms by (auto simp add: validated_def Let_def authorityChars_def)

section \<open>What the decomposer returns\<close>

text \<open>
  \<open>parseFrom\<close> is called with \<open>hierPartEnd\<close> at the first \<open>?\<close> or \<open>#\<close> (if any) and
  \<open>queryEnd\<close> at the first \<open>#\<close>, neither of them at position 0.  Its branches then
  agree on what the value holds: the hier-part stops at the first marker, the query is the
  text between a \<open>?\<close> and the \<open>#\<close> that follows, the fragment is the text after the
  \<open>#\<close>.
\<close>

definition hierStop :: "string \<Rightarrow> int \<Rightarrow> int \<Rightarrow> int" where
  "hierStop raw hE qE = (if hE > 0 then hE else if qE > 0 then qE else len raw)"

definition queryText :: "string \<Rightarrow> int \<Rightarrow> int \<Rightarrow> string" where
  "queryText raw hE qE =
     (if hE > 0 \<and> hE + 1 < len raw then
        if qE < 0 then sliceFrom raw (hE + 1)
        else if hE < qE - 1 then slice raw (hE + 1) qE
        else []
      else [])"

definition fragmentText :: "string \<Rightarrow> int \<Rightarrow> string" where
  "fragmentText raw qE = (if qE > 0 \<and> qE + 1 < len raw then sliceFrom raw (qE + 1) else [])"

lemma parseFrom_normal:
  assumes z: "hE \<noteq> 0" "qE \<noteq> 0" and b: "hE < len raw" "qE < len raw"
    and o: "hE > 0 \<and> qE > 0 \<longrightarrow> hE \<le> qE"
  shows "parseFrom E raw ops sch se hE qE =
     (case parseAuthority (slice raw (se + 1) (hierStop raw hE qE)) of
        Inl e \<Rightarrow> failed (errorsJoin [ErrInvalidURI, e])
      | Inr a \<Rightarrow>
          validated E ops
            (emptyURI\<lparr>scheme := sch, hierPart := slice raw (se + 1) (hierStop raw hE qE),
                      query := queryText raw hE qE, fragment := fragmentText raw qE,
                      authority := a\<rparr>))"
proof -
  consider (last) "hE > 0" "hE = len raw - 1"
    | (none) "hE < 0" "qE < 0"
    | (query) "hE > 0" "hE < len raw - 1"
    | (lastf) "hE < 0" "qE > 0" "qE = len raw - 1"
    | (frag) "hE < 0" "qE > 0" "qE < len raw - 1"
    using z b by linarith
  then show ?thesis
  proof cases
    case last
    with o b have "qE < 0 \<or> qE = len raw - 1" using z by linarith
    with last show ?thesis
      by (auto simp add: parseFrom_def Let_def hierStop_def queryText_def fragmentText_def
            emptyURI_def split: sum.splits)
  next
    case none
    then show ?thesis
      by (auto simp add: parseFrom_def Let_def hierStop_def queryText_def fragmentText_def
            emptyURI_def split: sum.splits)
  next
    case query
    then show ?thesis
      by (auto simp add: parseFrom_def Let_def hierStop_def queryText_def fragmentText_def
            emptyURI_def split: sum.splits)
  next
    case lastf
    then show ?thesis
      by (auto simp add: parseFrom_def Let_def hierStop_def queryText_def fragmentText_def
            emptyURI_def split: sum.splits)
  next
    case frag
    then show ?thesis
      by (auto simp add: parseFrom_def Let_def hierStop_def queryText_def fragmentText_def
            emptyURI_def split: sum.splits)
  qed
qed


definition firstMarker :: "string \<Rightarrow> int" where
  "firstMarker raw =
     (if IndexByte raw (CHR ''#'') > 0 \<and> IndexByte raw (CHR ''#'') < IndexByte raw (CHR ''?'')
      then IndexByte raw (CHR ''#'') else IndexByte raw (CHR ''?''))"

lemma IndexByte_distinct:
  assumes "c \<noteq> d" "0 \<le> IndexByte s c"
  shows "IndexByte s c \<noteq> IndexByte s d"
proof
  assume e: "IndexByte s c = IndexByte s d"
  with assms have "s ! nat (IndexByte s c) = c" "s ! nat (IndexByte s c) = d"
    using IndexByte_nth [of s c] IndexByte_nth [of s d] by simp_all
  with assms show False by simp
qed

lemma parseAuthority_Nil: "parseAuthority [] = Inr emptyAuthority"
  by (simp add: parseAuthority_def HasPrefix_def authorityPrefix_def emptyAuthority_def)

lemma parse_success:
  assumes p: "parse E raw ops = (u, None)"
  shows "\<exists>se a.
       (se = -1 \<or> 0 < se \<and> se = IndexByte raw (CHR '':'') \<and> \<not> HasPrefix raw authorityPrefix)
     \<and> se < hierStop raw (firstMarker raw) (IndexByte raw (CHR ''#''))
     \<and> IndexByte raw (CHR ''?'') \<noteq> 0 \<and> IndexByte raw (CHR ''#'') \<noteq> 0
     \<and> parseAuthority (hierPart u) = Inr a
     \<and> scheme u = slice raw 0 se
     \<and> hierPart u = slice raw (se + 1) (hierStop raw (firstMarker raw) (IndexByte raw (CHR ''#'')))
     \<and> query u = queryText raw (firstMarker raw) (IndexByte raw (CHR ''#''))
     \<and> fragment u = fragmentText raw (IndexByte raw (CHR ''#''))
     \<and> prefix (authority u) = prefix a \<and> userinfo (authority u) = userinfo a
     \<and> host (authority u) = host a \<and> port (authority u) = port a
     \<and> path (authority u) = path a"
proof -
  define sE where "sE = IndexByte raw (CHR '':'')"
  define hE0 where "hE0 = IndexByte raw (CHR ''?'')"
  define qE where "qE = IndexByte raw (CHR ''#'')"
  define hE where "hE = firstMarker raw"
  define rel where "rel = HasPrefix raw authorityPrefix"
  have hE: "hE = (if qE > 0 \<and> qE < hE0 then qE else hE0)"
    by (simp add: hE_def firstMarker_def qE_def hE0_def)
  have rng: "sE < len raw" "hE0 < len raw" "qE < len raw" "-1 \<le> sE" "-1 \<le> hE0" "-1 \<le> qE"
    using IndexByte_range by (simp_all add: sE_def hE0_def qE_def)
  have dist: "0 \<le> hE0 \<longrightarrow> hE0 \<noteq> sE" "0 \<le> qE \<longrightarrow> qE \<noteq> sE"
    using IndexByte_distinct [of "CHR ''?''" "CHR '':''" raw]
      IndexByte_distinct [of "CHR ''#''" "CHR '':''" raw]
    by (simp_all add: sE_def hE0_def qE_def)
  from p have chk: "sE \<noteq> 0" "hE0 \<noteq> 0" "qE \<noteq> 0" "sE \<noteq> 1"
    "\<not> (hE0 > 0 \<and> hE0 < sE)" "\<not> (qE > 0 \<and> qE < sE)"
    unfolding parse_def Let_def sE_def [symmetric] hE0_def [symmetric] qE_def [symmetric]
    by (auto simp add: failed_def split: if_splits)
  from chk rng hE have nz: "hE \<noteq> 0" "hE < len raw" "hE > 0 \<and> qE > 0 \<longrightarrow> hE \<le> qE"
    by (auto split: if_splits)
  note nf = parseFrom_normal [OF nz(1) chk(3) nz(2) rng(3) nz(3)]
  from p chk consider
      (only) "0 < sE" "\<not> rel" "sE + 1 = len raw"
        "(let u0 = emptyURI\<lparr>scheme := slice raw 0 sE\<rparr>; r = validate E u0 ops;
              u' = u0\<lparr>err := snd r, authority := (authority u0)\<lparr>ip := fst r\<rparr>\<rparr>
          in (u', err u')) = (u, None)"
    | (sch) "0 < sE" "\<not> rel" "parseFrom E raw ops (slice raw 0 sE) sE hE qE = (u, None)"
    | (ref) "parseFrom E raw ops [] (-1) hE qE = (u, None)"
    | (ref') "\<not> rel" "\<not> 0 < sE" "parseFrom E raw ops [] sE hE qE = (u, None)"
    unfolding parse_def Let_def sE_def [symmetric] hE0_def [symmetric] qE_def [symmetric]
      rel_def [symmetric] hE
    by (auto simp add: failed_def split: if_splits)
  then have "\<exists>se a.
       (se = -1 \<or> 0 < se \<and> se = sE \<and> \<not> rel)
     \<and> se < hierStop raw hE qE
     \<and> parseAuthority (hierPart u) = Inr a
     \<and> scheme u = slice raw 0 se
     \<and> hierPart u = slice raw (se + 1) (hierStop raw hE qE)
     \<and> query u = queryText raw hE qE
     \<and> fragment u = fragmentText raw qE
     \<and> prefix (authority u) = prefix a \<and> userinfo (authority u) = userinfo a
     \<and> host (authority u) = host a \<and> port (authority u) = port a
     \<and> path (authority u) = path a"
  proof cases
    case only
    from only(1,3) chk rng dist have neg: "hE0 < 0" "qE < 0" by linarith+
    then have hneg: "hE < 0" by (simp add: hE)
    from neg hneg have st: "hierStop raw hE qE = len raw" by (simp add: hierStop_def)
    have sl: "\<And>k. slice raw k k = []" by (simp add: slice_def)
    from only(4) have u: "scheme u = slice raw 0 sE" "hierPart u = []" "query u = []"
      "fragment u = []" "prefix (authority u) = []" "userinfo (authority u) = []"
      "host (authority u) = []" "port (authority u) = []" "path (authority u) = []"
      by (auto simp add: Let_def emptyURI_def emptyAuthority_def)
    have "(sE = -1 \<or> 0 < sE \<and> sE = sE \<and> \<not> rel)
     \<and> sE < hierStop raw hE qE
     \<and> parseAuthority (hierPart u) = Inr emptyAuthority
     \<and> scheme u = slice raw 0 sE
     \<and> hierPart u = slice raw (sE + 1) (hierStop raw hE qE)
     \<and> query u = queryText raw hE qE
     \<and> fragment u = fragmentText raw qE
     \<and> prefix (authority u) = prefix emptyAuthority
     \<and> userinfo (authority u) = userinfo emptyAuthority
     \<and> host (authority u) = host emptyAuthority \<and> port (authority u) = port emptyAuthority
     \<and> path (authority u) = path emptyAuthority"
      using only(1,2,3) u neg hneg
      by (simp add: st sl parseAuthority_Nil queryText_def fragmentText_def emptyAuthority_def)
    then show ?thesis by blast
  next
    case sch
    have lt: "sE < hierStop raw hE qE"
      using sch(1) chk rng dist hE by (auto simp add: hierStop_def split: if_splits)
    from sch(3) obtain a where
      pa: "parseAuthority (slice raw (sE + 1) (hierStop raw hE qE)) = Inr a"
      and v: "validated E ops
            (emptyURI\<lparr>scheme := slice raw 0 sE,
               hierPart := slice raw (sE + 1) (hierStop raw hE qE),
               query := queryText raw hE qE, fragment := fragmentText raw qE,
               authority := a\<rparr>) = (u, None)"
      unfolding nf by (auto simp add: failed_def split: sum.splits)
    note fl = validated_fields [OF v]
    from fl pa lt sch(1,2) show ?thesis by (intro exI [of _ sE] exI [of _ a]) simp
  next
    case ref
    have lt: "-1 < hierStop raw hE qE"
      by (auto simp add: hierStop_def len_def)
    from ref obtain a where
      pa: "parseAuthority (slice raw (-1 + 1) (hierStop raw hE qE)) = Inr a"
      and v: "validated E ops
            (emptyURI\<lparr>scheme := [],
               hierPart := slice raw (-1 + 1) (hierStop raw hE qE),
               query := queryText raw hE qE, fragment := fragmentText raw qE,
               authority := a\<rparr>) = (u, None)"
      unfolding nf by (auto simp add: failed_def split: sum.splits)
    note fl = validated_fields [OF v]
    have "slice raw 0 (-1) = []" by (simp add: slice_def)
    with fl pa lt show ?thesis by (intro exI [of _ "-1"] exI [of _ a]) simp
  next
    case ref'
    with chk rng have s: "sE = -1" by linarith
    have lt: "-1 < hierStop raw hE qE"
      by (auto simp add: hierStop_def len_def)
    from ref'(3) obtain a where
      pa: "parseAuthority (slice raw (-1 + 1) (hierStop raw hE qE)) = Inr a"
      and v: "validated E ops
            (emptyURI\<lparr>scheme := [],
               hierPart := slice raw (-1 + 1) (hierStop raw hE qE),
               query := queryText raw hE qE, fragment := fragmentText raw qE,
               authority := a\<rparr>) = (u, None)"
      unfolding nf s by (auto simp add: failed_def split: sum.splits)
    note fl = validated_fields [OF v]
    have "slice raw 0 (-1) = []" by (simp add: slice_def)
    with fl pa lt show ?thesis by (intro exI [of _ "-1"] exI [of _ a]) simp
  qed
  with chk show ?thesis
    unfolding sE_def hE0_def qE_def hE_def rel_def by blast
qed


lemma set_take_mono: "a \<le> b \<Longrightarrow> set (take a xs) \<subseteq> set (take b xs)"
  by (metis min.absorb1 set_take_subset take_take)

lemma set_slice_take:
  assumes "0 \<le> a"
  shows "set (slice s a b) \<subseteq> set (take (nat b) s)"
proof -
  from assms have "nat (b - a) = nat b - nat a" by arith
  then have "slice s a b = drop (nat a) (take (nat b) s)"
    by (simp add: slice_def drop_take)
  then show ?thesis by (simp add: set_drop_subset)
qed

lemma hierStop_first:
  assumes z: "IndexByte raw (CHR ''?'') \<noteq> 0" "IndexByte raw (CHR ''#'') \<noteq> 0"
  defines "stop \<equiv> hierStop raw (firstMarker raw) (IndexByte raw (CHR ''#''))"
  shows "0 \<le> stop" "stop \<le> len raw"
    "CHR ''?'' \<notin> set (take (nat stop) raw)" "CHR ''#'' \<notin> set (take (nat stop) raw)"
    "stop = len raw \<or> raw ! nat stop = CHR ''?'' \<or> raw ! nat stop = CHR ''#''"
proof -
  define hE0 where "hE0 = IndexByte raw (CHR ''?'')"
  define qE where "qE = IndexByte raw (CHR ''#'')"
  have rng: "hE0 < len raw" "qE < len raw" "-1 \<le> hE0" "-1 \<le> qE"
    using IndexByte_range by (simp_all add: hE0_def qE_def)
  have q: "0 \<le> hE0 \<longrightarrow> CHR ''?'' \<notin> set (take (nat hE0) raw) \<and> raw ! nat hE0 = CHR ''?''"
    "hE0 < 0 \<longrightarrow> CHR ''?'' \<notin> set raw"
    using IndexByte_take [of raw "CHR ''?''"] IndexByte_nth [of raw "CHR ''?''"]
      IndexByte_neg_iff [of raw "CHR ''?''"] by (simp_all add: hE0_def)
  have f: "0 \<le> qE \<longrightarrow> CHR ''#'' \<notin> set (take (nat qE) raw) \<and> raw ! nat qE = CHR ''#''"
    "qE < 0 \<longrightarrow> CHR ''#'' \<notin> set raw"
    using IndexByte_take [of raw "CHR ''#''"] IndexByte_nth [of raw "CHR ''#''"]
      IndexByte_neg_iff [of raw "CHR ''#''"] by (simp_all add: qE_def)
  have z': "hE0 \<noteq> 0" "qE \<noteq> 0" using z by (simp_all add: hE0_def qE_def)
  consider (f) "0 < qE" "qE < hE0 \<or> hE0 < 0" | (q) "0 < hE0" "hE0 \<le> qE \<or> qE < 0"
    | (n) "hE0 < 0" "qE < 0"
    using z' rng by linarith
  then have "0 \<le> stop \<and> stop \<le> len raw
    \<and> CHR ''?'' \<notin> set (take (nat stop) raw) \<and> CHR ''#'' \<notin> set (take (nat stop) raw)
    \<and> (stop = len raw \<or> raw ! nat stop = CHR ''?'' \<or> raw ! nat stop = CHR ''#'')"
  proof cases
    case f
    then have st: "stop = qE"
      by (auto simp add: stop_def hierStop_def firstMarker_def hE0_def [symmetric]
            qE_def [symmetric])
    have "CHR ''?'' \<notin> set (take (nat qE) raw)"
    proof (cases "hE0 < 0")
      case True
      with q(2) show ?thesis by (meson in_set_takeD)
    next
      case False
      with f have "nat qE \<le> nat hE0" by simp
      from set_take_mono [OF this, of raw] q(1) False show ?thesis by auto
    qed
    with f rng show ?thesis using \<open>0 \<le> qE \<longrightarrow> _\<close> by (simp add: st)
  next
    case q
    then have st: "stop = hE0"
      by (auto simp add: stop_def hierStop_def firstMarker_def hE0_def [symmetric]
            qE_def [symmetric])
    have "CHR ''#'' \<notin> set (take (nat hE0) raw)"
    proof (cases "qE < 0")
      case True
      with f(2) show ?thesis by (meson in_set_takeD)
    next
      case False
      with q have "nat hE0 \<le> nat qE" by simp
      from set_take_mono [OF this, of raw] f(1) False show ?thesis by auto
    qed
    with q rng show ?thesis using \<open>0 \<le> hE0 \<longrightarrow> _\<close> by (simp add: st)
  next
    case n
    then have st: "stop = len raw"
      by (auto simp add: stop_def hierStop_def firstMarker_def hE0_def [symmetric]
            qE_def [symmetric])
    from n q(2) f(2) show ?thesis by (simp add: st len_def)
  qed
  then show "0 \<le> stop" "stop \<le> len raw"
    "CHR ''?'' \<notin> set (take (nat stop) raw)" "CHR ''#'' \<notin> set (take (nat stop) raw)"
    "stop = len raw \<or> raw ! nat stop = CHR ''?'' \<or> raw ! nat stop = CHR ''#''"
    by simp_all
qed

lemma takeWhile_slice:
  assumes "n \<le> m" "m \<le> length xs" "\<forall>x\<in>set (take m xs). P x"
    and "m = length xs \<or> \<not> P (xs ! m)"
  shows "takeWhile P (drop n xs) = take (m - n) (drop n xs)"
proof -
  have d: "drop n xs = take (m - n) (drop n xs) @ drop m xs"
    using assms(1) by (metis append_take_drop_id drop_drop add.commute le_add_diff_inverse)
  have a: "\<forall>x\<in>set (take (m - n) (drop n xs)). P x"
  proof -
    have "take (m - n) (drop n xs) = drop n (take m xs)" by (simp add: drop_take)
    then show ?thesis using assms(3) by (metis in_set_dropD)
  qed
  have b: "takeWhile P (drop m xs) = []"
  proof (cases "m = length xs")
    case True
    then show ?thesis by simp
  next
    case False
    with assms(2,4) have "m < length xs" "\<not> P (xs ! m)" by auto
    then show ?thesis by (simp add: takeWhile_eq_Nil_iff hd_drop_conv_nth)
  qed
  have "takeWhile P (drop n xs) = takeWhile P (take (m - n) (drop n xs) @ drop m xs)"
    using d by simp
  also have "\<dots> = take (m - n) (drop n xs) @ takeWhile P (drop m xs)"
    using a by (simp add: takeWhile_append2)
  finally show ?thesis using b by simp
qed


lemma parseAuthority_prefix:
  assumes "parseAuthority h = Inr a"
  shows "prefix a = (if HasPrefix h authorityPrefix then authorityPrefix else [])"
  using assms
  by (auto simp add: parseAuthority_def Let_def emptyAuthority_def split: if_splits sum.splits)

lemma parse_hierPart:
  assumes p: "parse E raw ops = (u, None)"
  shows "hierPart u =
           takeWhile (\<lambda>c. c \<noteq> CHR ''?'' \<and> c \<noteq> CHR ''#'')
             (drop (if scheme u = [] then 0 else length (scheme u) + 1) raw)"
    and "prefix (authority u) =
           (if HasPrefix (hierPart u) authorityPrefix then authorityPrefix else [])"
    and "scheme u = [] \<or> take (length (scheme u) + 1) raw = scheme u @ '':''"
proof -
  define stop where "stop = hierStop raw (firstMarker raw) (IndexByte raw (CHR ''#''))"
  from parse_success [OF p] obtain se a where
    se: "se = -1 \<or> 0 < se \<and> se = IndexByte raw (CHR '':'') \<and> \<not> HasPrefix raw authorityPrefix"
    and lt: "se < stop"
    and z: "IndexByte raw (CHR ''?'') \<noteq> 0" "IndexByte raw (CHR ''#'') \<noteq> 0"
    and pa: "parseAuthority (hierPart u) = Inr a"
    and sc: "scheme u = slice raw 0 se"
    and hp: "hierPart u = slice raw (se + 1) stop"
    and pr: "prefix (authority u) = prefix a"
    unfolding stop_def by blast
  note st = hierStop_first [OF z, folded stop_def]
  define n where "n = nat (se + 1)"
  have n: "n = (if scheme u = [] then 0 else length (scheme u) + 1)"
    and cl: "scheme u = [] \<or> take (length (scheme u) + 1) raw = scheme u @ '':''"
  proof -
    from se consider (rel) "se = -1" | (abs) "0 < se" "se = IndexByte raw (CHR '':'')" by blast
    then have "n = (if scheme u = [] then 0 else length (scheme u) + 1)
        \<and> (scheme u = [] \<or> take (length (scheme u) + 1) raw = scheme u @ '':'')"
    proof cases
      case rel
      then show ?thesis by (simp add: n_def sc slice_def)
    next
      case abs
      from abs lt st(2) have l: "nat se < length raw" by (simp add: len_def)
      then have ls: "length (scheme u) = nat se" by (simp add: sc slice_def)
      from abs have "raw ! nat se = CHR '':''" using IndexByte_nth [of raw "CHR '':''"] by simp
      with l have "take (Suc (nat se)) raw = take (nat se) raw @ '':''"
        by (simp add: take_Suc_conv_app_nth)
      with abs ls l show ?thesis by (auto simp add: n_def sc slice_def nat_add_distrib)
    qed
    then show "n = (if scheme u = [] then 0 else length (scheme u) + 1)"
      and "scheme u = [] \<or> take (length (scheme u) + 1) raw = scheme u @ '':''"
      by simp_all
  qed
  from se have nn: "0 \<le> se + 1" by auto
  have le: "n \<le> nat stop" using lt nn by (simp add: n_def)
  have e: "nat (stop - (se + 1)) = nat stop - n" using nn by (simp add: n_def)
  have "takeWhile (\<lambda>c. c \<noteq> CHR ''?'' \<and> c \<noteq> CHR ''#'') (drop n raw)
      = take (nat stop - n) (drop n raw)"
  proof (rule takeWhile_slice [OF le])
    show "nat stop \<le> length raw" using st(1,2) by (simp add: len_def)
    show "\<forall>x\<in>set (take (nat stop) raw). x \<noteq> CHR ''?'' \<and> x \<noteq> CHR ''#''"
      using st(3,4) by auto
    show "nat stop = length raw
        \<or> \<not> (raw ! nat stop \<noteq> CHR ''?'' \<and> raw ! nat stop \<noteq> CHR ''#'')"
      using st(1,5) by (auto simp add: len_def)
  qed
  then show "hierPart u =
           takeWhile (\<lambda>c. c \<noteq> CHR ''?'' \<and> c \<noteq> CHR ''#'')
             (drop (if scheme u = [] then 0 else length (scheme u) + 1) raw)"
    unfolding n [symmetric] by (simp add: hp slice_def e n_def)
  show "prefix (authority u) =
           (if HasPrefix (hierPart u) authorityPrefix then authorityPrefix else [])"
    using parseAuthority_prefix [OF pa] pr by simp
  show "scheme u = [] \<or> take (length (scheme u) + 1) raw = scheme u @ '':''" by (rule cl)
qed

lemma parse_markers:
  assumes p: "parse E raw ops = (u, None)"
  shows "CHR ''?'' \<notin> set (scheme u)" "CHR ''#'' \<notin> set (scheme u)"
    "CHR ''?'' \<notin> authorityChars (authority u)" "CHR ''#'' \<notin> authorityChars (authority u)"
    "CHR ''#'' \<notin> set (query u)"
proof -
  define stop where "stop = hierStop raw (firstMarker raw) (IndexByte raw (CHR ''#''))"
  define qE where "qE = IndexByte raw (CHR ''#'')"
  define hE where "hE = firstMarker raw"
  from parse_success [OF p] obtain se a where
    se: "se = -1 \<or> 0 < se \<and> se = IndexByte raw (CHR '':'') \<and> \<not> HasPrefix raw authorityPrefix"
    and lt: "se < stop"
    and z: "IndexByte raw (CHR ''?'') \<noteq> 0" "IndexByte raw (CHR ''#'') \<noteq> 0"
    and pa: "parseAuthority (hierPart u) = Inr a"
    and sc: "scheme u = slice raw 0 se"
    and hp: "hierPart u = slice raw (se + 1) stop"
    and qu: "query u = queryText raw hE qE"
    and au: "prefix (authority u) = prefix a" "userinfo (authority u) = userinfo a"
      "host (authority u) = host a" "port (authority u) = port a"
      "path (authority u) = path a"
    unfolding stop_def qE_def hE_def by blast
  note st = hierStop_first [OF z, folded stop_def]
  from se have nn: "0 \<le> se + 1" by auto
  have "set (scheme u) \<subseteq> set (take (nat stop) raw)"
  proof -
    have "set (slice raw 0 se) \<subseteq> set (take (nat se) raw)" by (rule set_slice_take) simp
    moreover have "set (take (nat se) raw) \<subseteq> set (take (nat stop) raw)"
      using lt by (intro set_take_mono) simp
    ultimately show ?thesis by (simp add: sc)
  qed
  with st(3,4) show "CHR ''?'' \<notin> set (scheme u)" "CHR ''#'' \<notin> set (scheme u)" by auto
  have "authorityChars (authority u) = authorityChars a" by (simp add: authorityChars_def au)
  moreover have "authorityChars a \<subseteq> set (hierPart u)" by (rule parseAuthority_chars [OF pa])
  moreover have "set (hierPart u) \<subseteq> set (take (nat stop) raw)"
    unfolding hp by (rule set_slice_take [OF nn])
  ultimately have "authorityChars (authority u) \<subseteq> set (take (nat stop) raw)" by simp
  with st(3,4) show "CHR ''?'' \<notin> authorityChars (authority u)"
    "CHR ''#'' \<notin> authorityChars (authority u)" by auto
  show "CHR ''#'' \<notin> set (query u)"
  proof (cases "qE < 0")
    case True
    then have "CHR ''#'' \<notin> set raw" using IndexByte_neg_iff [of raw "CHR ''#''"] by (simp add: qE_def)
    moreover have "set (query u) \<subseteq> set raw"
      unfolding qu queryText_def
      using set_sliceFrom [of raw "hE + 1"] set_slice [of raw "hE + 1" qE] by auto
    ultimately show ?thesis by auto
  next
    case False
    then have t: "CHR ''#'' \<notin> set (take (nat qE) raw)"
      using IndexByte_take [of raw "CHR ''#''"] by (simp add: qE_def)
    have "set (query u) \<subseteq> set (take (nat qE) raw)"
    proof (cases "hE > 0 \<and> hE + 1 < len raw \<and> hE < qE - 1")
      case True
      with False have "query u = slice raw (hE + 1) qE" by (simp add: qu queryText_def)
      moreover from True have "0 \<le> hE + 1" by simp
      ultimately show ?thesis using set_slice_take by simp
    next
      case nq: False
      with False have "query u = []" by (auto simp add: qu queryText_def)
      then show ?thesis by simp
    qed
    with t show ?thesis by auto
  qed
qed

lemma String_marks:
  assumes p: "parse E raw ops = (u, None)"
  shows "CHR ''#'' \<in> set (String u) \<longleftrightarrow> fragment u \<noteq> []"
    and "CHR ''?'' \<in> set (String (u\<lparr>fragment := []\<rparr>)) \<longleftrightarrow> query u \<noteq> []"
proof -
  note m = parse_markers [OF p]
  from m show "CHR ''#'' \<in> set (String u) \<longleftrightarrow> fragment u \<noteq> []"
    by (auto simp add: String_def buildString_def authorityChars_def)
  from m show "CHR ''?'' \<in> set (String (u\<lparr>fragment := []\<rparr>)) \<longleftrightarrow> query u \<noteq> []"
    by (auto simp add: String_def buildString_def authorityChars_def)
qed


text \<open>
  Three shapes of input with an empty query or fragment: a bare \<open>?\<close> at the end, a bare
  \<open>#\<close> at the end, and a \<open>?\<close> immediately followed by the \<open>#\<close>.
\<close>

lemma parse_query_fragment:
  assumes p: "parse E raw ops = (u, None)"
  shows "query u = queryText raw (firstMarker raw) (IndexByte raw (CHR ''#''))"
    and "fragment u = fragmentText raw (IndexByte raw (CHR ''#''))"
  using parse_success [OF p] by blast+

lemma fragment_update_same: "fragment u = [] \<Longrightarrow> u\<lparr>fragment := []\<rparr> = u"
  by (cases u) simp

lemma parse_bare_query:
  assumes q: "CHR ''?'' \<notin> set raw" and f: "CHR ''#'' \<notin> set raw"
    and p: "parse E (raw @ ''?'') ops = (u, None)"
  shows "query u = []" "fragment u = []" "CHR ''?'' \<notin> set (String u)"
proof -
  have hE: "IndexByte (raw @ ''?'') (CHR ''?'') = len raw"
    using q by (simp add: IndexByte_append_found)
  have qE: "IndexByte (raw @ ''?'') (CHR ''#'') = -1" using f by (simp add: IndexByte_notin)
  have ln: "len (raw @ ''?'') = len raw + 1" by (simp add: len_def)
  show qu: "query u = []"
    by (simp add: parse_query_fragment(1) [OF p] firstMarker_def hE qE ln queryText_def)
  show fr: "fragment u = []"
    by (simp add: parse_query_fragment(2) [OF p] qE fragmentText_def)
  from String_marks(2) [OF p] qu fr show "CHR ''?'' \<notin> set (String u)"
    by (simp add: fragment_update_same)
qed

lemma parse_bare_fragment:
  assumes f: "CHR ''#'' \<notin> set raw"
    and p: "parse E (raw @ ''#'') ops = (u, None)"
  shows "fragment u = []" "CHR ''#'' \<notin> set (String u)"
    "CHR ''?'' \<notin> set raw \<longrightarrow> query u = []"
proof -
  have qE: "IndexByte (raw @ ''#'') (CHR ''#'') = len raw"
    using f by (simp add: IndexByte_append_found)
  have ln: "len (raw @ ''#'') = len raw + 1" by (simp add: len_def)
  show fr: "fragment u = []"
    by (simp add: parse_query_fragment(2) [OF p] qE ln fragmentText_def)
  from String_marks(1) [OF p] fr show "CHR ''#'' \<notin> set (String u)" by simp
  show "CHR ''?'' \<notin> set raw \<longrightarrow> query u = []"
  proof
    assume "CHR ''?'' \<notin> set raw"
    then have hE: "IndexByte (raw @ ''#'') (CHR ''?'') = -1" by (simp add: IndexByte_notin)
    show "query u = []"
      by (simp add: parse_query_fragment(1) [OF p] firstMarker_def hE qE queryText_def)
  qed
qed

lemma parse_empty_query_then_fragment:
  assumes q: "CHR ''?'' \<notin> set raw" and f: "CHR ''#'' \<notin> set raw"
    and p: "parse E (raw @ ''?#'' @ frg) ops = (u, None)"
  shows "query u = []" "fragment u = frg" "CHR ''?'' \<notin> set (String (u\<lparr>fragment := []\<rparr>))"
proof -
  define r where "r = raw @ ''?#'' @ frg"
  note p' = p [folded r_def]
  have hE: "IndexByte r (CHR ''?'') = len raw"
    using q IndexByte_append_found [of "CHR ''?''" raw "CHR ''#'' # frg"] by (simp add: r_def)
  have "IndexByte ((raw @ ''?'') @ CHR ''#'' # frg) (CHR ''#'') = len (raw @ ''?'')"
    using f by (intro IndexByte_append_found) simp
  then have qE: "IndexByte r (CHR ''#'') = len raw + 1" by (simp add: len_def r_def)
  have ln: "len r = len raw + 2 + len frg" by (simp add: len_def r_def)
  show qu: "query u = []"
    by (simp add: parse_query_fragment(1) [OF p'] firstMarker_def hE qE queryText_def)
  have "fragmentText r (len raw + 1) = frg"
    by (auto simp add: fragmentText_def ln sliceFrom_def) (simp_all add: len_def r_def nat_add_distrib)
  then show "fragment u = frg" by (simp add: parse_query_fragment(2) [OF p'] qE)
  from String_marks(2) [OF p] qu show "CHR ''?'' \<notin> set (String (u\<lparr>fragment := []\<rparr>))"
    by simp
qed

section \<open>Evaluating closed examples\<close>

lemmas rune_defs = colonMark_def questionMark_def fragmentMark_def percentMark_def atHost_def
  slashMark_def dotSeparator_def RuneError_def

lemmas class_defs = isUnreservedOrSubDelim_def unicode_IsLetter_def unicode_IsDigit_def
  latin1Letter_def isASCIILetter_def isUcsChar_def inRanges_def ucschar_def

lemmas slice_defs = len_def slice_def sliceFrom_def sliceTo_def HasPrefix_def authorityPrefix_def

lemmas flag_defs = flagValidateScheme_def flagValidateHost_def flagValidatePort_def
  flagValidateUserInfo_def flagValidatePath_def flagValidateQuery_def flagValidateFragment_def

lemmas decode_defs = DecodeRuneInString_def DecodeRune_def utf8_seqLength_def
  utf8_acceptRange_def

lemmas value_defs = emptyURI_def emptyAuthority_def noIP_def failed_def validated_def

lemmas authority_defs = parseAuthority_def authPath_def authRegion_def authUser_def
  authHostPort_def portAfter_def splitHostPort_def

lemmas dns_defs = validateHostForScheme_def validateDNSHostForScheme_def dnsHostLoop.simps
  validateHostSegment_def validateFirstRuneInSegment_def hostSegmentLoop.simps nextHostRune_def
  validateRegisteredHostForScheme_def maxDomainLength_def maxSegmentLength_def
  invalidDNSRune_def emptyDNSSegment_def badDNSSegmentEnd_def

lemma flags_default:
  "flagSet packageLevelDefaults flag = (flag \<noteq> 0)"
  "flagSet packageLevelReferenceDefaults flag = (flag \<noteq> 0)"
  by (simp_all add: flagSet_def packageLevelDefaults_def packageLevelReferenceDefaults_def
        word_greater_zero_iff)

lemma asciiEnv_simps:
  "LetterTable asciiEnv = (\<lambda>r. False)" "DigitTable asciiEnv = (\<lambda>r. False)"
  "UsesDNSHostValidation asciiEnv = defaultUsesDNSHostValidation"
  "validateIPv4 asciiEnv = noAddress" "validateIPv6 asciiEnv = noAddress"
  "validateIPvFuture asciiEnv = noAddress"
  by (simp_all add: asciiEnv_def)

lemma parseAuthority_h:
  "parseAuthority ''//h'' = Inr (emptyAuthority\<lparr>prefix := ''//'', host := ''h''\<rparr>)"
  by (simp add: authority_defs slice_defs value_defs Let_def)

lemma validateScheme_https: "validateScheme ''https'' = None"
  by (simp add: validateScheme_def char_defs isASCIILetter_def)

lemma validateHost_h: "validateHost asciiEnv ''h'' False ''https'' = (noIP, None)"
  by (simp add: validateHost_def asciiEnv_simps noAddress_def dns_defs
       defaultUsesDNSHostValidation_def validateUnreservedWithExtra.simps
       decode_defs rune_defs class_defs byte_def Let_def)

lemma parse_https_h_query:
  "parse asciiEnv ''https://h?'' packageLevelDefaults =
     (emptyURI\<lparr>scheme := ''https'', hierPart := ''//h'',
        authority := emptyAuthority\<lparr>prefix := ''//'', host := ''h''\<rparr>\<rparr>, None)"
  by (simp add: parse_def parseFrom_def parseAuthority_h slice_defs flags_default flag_defs
        validate_def validateForScheme_def validateScheme_https validateHost_h value_defs
        Let_def)

lemma parse_https_h_fragment:
  "parse asciiEnv ''https://h#'' packageLevelDefaults =
     (emptyURI\<lparr>scheme := ''https'', hierPart := ''//h'',
        authority := emptyAuthority\<lparr>prefix := ''//'', host := ''h''\<rparr>\<rparr>, None)"
  by (simp add: parse_def parseFrom_def parseAuthority_h slice_defs flags_default flag_defs
        validate_def validateForScheme_def validateScheme_https validateHost_h value_defs
        Let_def)

lemma parse_https_h_query_fragment:
  "parse asciiEnv ''https://h?#'' packageLevelDefaults =
     (emptyURI\<lparr>scheme := ''https'', hierPart := ''//h'',
        authority := emptyAuthority\<lparr>prefix := ''//'', host := ''h''\<rparr>\<rparr>, None)"
  by (simp add: parse_def parseFrom_def parseAuthority_h slice_defs flags_default flag_defs
        validate_def validateForScheme_def validateScheme_https validateHost_h value_defs
        Let_def)

text \<open>
  C2, as the code has it.  \<open>String\<close> writes the colon after the scheme, the at-sign after
  the userinfo, the colon before the port, the question mark before the query and the
  hash before the fragment exactly when that component is not empty, and the authority
  prefix as the value holds it.  In a successfully parsed value the hier-part is the text
  that follows the scheme and its colon up to the first \<open>?\<close> or \<open>#\<close>, and the prefix is
  \<open>//\<close> exactly when that hier-part begins with \<open>//\<close>, whatever the authority that
  follows; its rendering holds a \<open>#\<close> exactly when the fragment is not empty, and a \<open>?\<close>
  before the fragment exactly when the query is not empty.  The value does not record
  that an empty query or fragment was present.  When an input without \<open>?\<close> and \<open>#\<close>,
  followed by a bare \<open>?\<close>, parses successfully, its query and fragment are empty and the
  rendering holds no \<open>?\<close>; when an input without \<open>#\<close>, followed by a bare \<open>#\<close>, parses
  successfully, its fragment is empty and the rendering holds no \<open>#\<close>; when an input
  without \<open>?\<close> and \<open>#\<close>, followed by \<open>?#\<close> and a fragment, parses successfully, its
  query is empty and the rendering holds no \<open>?\<close> before the fragment.
\<close>

theorem C2_separators_follow_non_empty_components:
  "String u =
     (if scheme u = [] then [] else scheme u @ '':'')
     @ prefix (authority u)
     @ (if userinfo (authority u) = [] then [] else userinfo (authority u) @ ''@'')
     @ (if isIPv6 (ip (authority u)) then ''['' @ host (authority u) @ '']''
        else host (authority u))
     @ (if port (authority u) = [] then [] else '':'' @ port (authority u))
     @ path (authority u)
     @ (if query u = [] then [] else ''?'' @ query u)
     @ (if fragment u = [] then [] else ''#'' @ fragment u)
   \<and> (parse E raw ops = (u, None) \<longrightarrow>
        (scheme u = [] \<or> take (length (scheme u) + 1) raw = scheme u @ '':'')
      \<and> hierPart u =
          takeWhile (\<lambda>c. c \<noteq> CHR ''?'' \<and> c \<noteq> CHR ''#'')
            (drop (if scheme u = [] then 0 else length (scheme u) + 1) raw)
      \<and> prefix (authority u) =
          (if HasPrefix (hierPart u) authorityPrefix then authorityPrefix else [])
      \<and> (CHR ''?'' \<in> set (String (u\<lparr>fragment := []\<rparr>)) \<longleftrightarrow> query u \<noteq> [])
      \<and> (CHR ''#'' \<in> set (String u) \<longleftrightarrow> fragment u \<noteq> []))
   \<and> (CHR ''?'' \<notin> set r1 \<and> CHR ''#'' \<notin> set r1 \<and> parse E (r1 @ ''?'') ops = (v, None)
        \<longrightarrow> query v = [] \<and> fragment v = [] \<and> CHR ''?'' \<notin> set (String v))
   \<and> (CHR ''#'' \<notin> set r2 \<and> parse E (r2 @ ''#'') ops = (w, None)
        \<longrightarrow> fragment w = [] \<and> CHR ''#'' \<notin> set (String w)
            \<and> (CHR ''?'' \<notin> set r2 \<longrightarrow> query w = []))
   \<and> (CHR ''?'' \<notin> set r3 \<and> CHR ''#'' \<notin> set r3 \<and> parse E (r3 @ ''?#'' @ frg) ops = (x, None)
        \<longrightarrow> query x = [] \<and> fragment x = frg
            \<and> CHR ''?'' \<notin> set (String (x\<lparr>fragment := []\<rparr>)))"
proof (intro conjI impI)
  show "String u =
     (if scheme u = [] then [] else scheme u @ '':'')
     @ prefix (authority u)
     @ (if userinfo (authority u) = [] then [] else userinfo (authority u) @ ''@'')
     @ (if isIPv6 (ip (authority u)) then ''['' @ host (authority u) @ '']''
        else host (authority u))
     @ (if port (authority u) = [] then [] else '':'' @ port (authority u))
     @ path (authority u)
     @ (if query u = [] then [] else ''?'' @ query u)
     @ (if fragment u = [] then [] else ''#'' @ fragment u)"
    by (simp add: String_def buildString_def)
next
  assume p: "parse E raw ops = (u, None)"
  show "scheme u = [] \<or> take (length (scheme u) + 1) raw = scheme u @ '':''"
    by (rule parse_hierPart(3) [OF p])
  show "hierPart u =
          takeWhile (\<lambda>c. c \<noteq> CHR ''?'' \<and> c \<noteq> CHR ''#'')
            (drop (if scheme u = [] then 0 else length (scheme u) + 1) raw)"
    by (rule parse_hierPart(1) [OF p])
  show "prefix (authority u) =
          (if HasPrefix (hierPart u) authorityPrefix then authorityPrefix else [])"
    by (rule parse_hierPart(2) [OF p])
  show "CHR ''?'' \<in> set (String (u\<lparr>fragment := []\<rparr>)) \<longleftrightarrow> query u \<noteq> []"
    by (rule String_marks(2) [OF p])
  show "CHR ''#'' \<in> set (String u) \<longleftrightarrow> fragment u \<noteq> []"
    by (rule String_marks(1) [OF p])
next
  assume h: "CHR ''?'' \<notin> set r1 \<and> CHR ''#'' \<notin> set r1 \<and> parse E (r1 @ ''?'') ops = (v, None)"
  then have q: "CHR ''?'' \<notin> set r1" and f: "CHR ''#'' \<notin> set r1"
    and p: "parse E (r1 @ ''?'') ops = (v, None)" by simp_all
  show "query v = []" by (rule parse_bare_query(1) [OF q f p])
  show "fragment v = []" by (rule parse_bare_query(2) [OF q f p])
  show "CHR ''?'' \<notin> set (String v)" by (rule parse_bare_query(3) [OF q f p])
next
  assume h: "CHR ''#'' \<notin> set r2 \<and> parse E (r2 @ ''#'') ops = (w, None)"
  then have f: "CHR ''#'' \<notin> set r2" and p: "parse E (r2 @ ''#'') ops = (w, None)"
    by simp_all
  show "fragment w = []" by (rule parse_bare_fragment(1) [OF f p])
  show "CHR ''#'' \<notin> set (String w)" by (rule parse_bare_fragment(2) [OF f p])
  assume "CHR ''?'' \<notin> set r2"
  with parse_bare_fragment(3) [OF f p] show "query w = []" by simp
next
  assume h: "CHR ''?'' \<notin> set r3 \<and> CHR ''#'' \<notin> set r3
      \<and> parse E (r3 @ ''?#'' @ frg) ops = (x, None)"
  then have q: "CHR ''?'' \<notin> set r3" and f: "CHR ''#'' \<notin> set r3"
    and p: "parse E (r3 @ ''?#'' @ frg) ops = (x, None)" by simp_all
  show "query x = []" by (rule parse_empty_query_then_fragment(1) [OF q f p])
  show "fragment x = frg" by (rule parse_empty_query_then_fragment(2) [OF q f p])
  show "CHR ''?'' \<notin> set (String (x\<lparr>fragment := []\<rparr>))"
    by (rule parse_empty_query_then_fragment(3) [OF q f p])
qed

theorem C2_witness:
  "CHR ''?'' \<notin> set ''https://h'' \<and> CHR ''#'' \<notin> set ''https://h''
   \<and> parse asciiEnv (''https://h'' @ ''?'') packageLevelDefaults =
        (emptyURI\<lparr>scheme := ''https'', hierPart := ''//h'',
           authority := emptyAuthority\<lparr>prefix := ''//'', host := ''h''\<rparr>\<rparr>, None)
   \<and> parse asciiEnv (''https://h'' @ ''#'') packageLevelDefaults =
        (emptyURI\<lparr>scheme := ''https'', hierPart := ''//h'',
           authority := emptyAuthority\<lparr>prefix := ''//'', host := ''h''\<rparr>\<rparr>, None)
   \<and> parse asciiEnv (''https://h'' @ ''?#'' @ []) packageLevelDefaults =
        (emptyURI\<lparr>scheme := ''https'', hierPart := ''//h'',
           authority := emptyAuthority\<lparr>prefix := ''//'', host := ''h''\<rparr>\<rparr>, None)
   \<and> prefix (authority (emptyURI\<lparr>scheme := ''https'', hierPart := ''//h'',
           authority := emptyAuthority\<lparr>prefix := ''//'', host := ''h''\<rparr>\<rparr>)) =
        (if HasPrefix (hierPart (emptyURI\<lparr>scheme := ''https'', hierPart := ''//h'',
           authority := emptyAuthority\<lparr>prefix := ''//'', host := ''h''\<rparr>\<rparr>)) authorityPrefix
         then authorityPrefix else [])
   \<and> CHR ''?'' \<notin> set (String (emptyURI\<lparr>scheme := ''https'', hierPart := ''//h'',
           authority := emptyAuthority\<lparr>prefix := ''//'', host := ''h''\<rparr>\<rparr>))
   \<and> CHR ''#'' \<notin> set (String (emptyURI\<lparr>scheme := ''https'', hierPart := ''//h'',
           authority := emptyAuthority\<lparr>prefix := ''//'', host := ''h''\<rparr>\<rparr>))
   \<and> query (emptyURI\<lparr>scheme := ''https'', hierPart := ''//h'',
           authority := emptyAuthority\<lparr>prefix := ''//'', host := ''h''\<rparr>\<rparr>) = []"
proof -
  let ?v = "emptyURI\<lparr>scheme := ''https'', hierPart := ''//h'',
           authority := emptyAuthority\<lparr>prefix := ''//'', host := ''h''\<rparr>\<rparr>"
  have h: "CHR ''?'' \<notin> set ''https://h''" "CHR ''#'' \<notin> set ''https://h''" by simp_all
  have p: "parse asciiEnv (''https://h'' @ ''?'') packageLevelDefaults = (?v, None)"
    "parse asciiEnv (''https://h'' @ ''#'') packageLevelDefaults = (?v, None)"
    "parse asciiEnv (''https://h'' @ ''?#'' @ []) packageLevelDefaults = (?v, None)"
    using parse_https_h_query parse_https_h_fragment parse_https_h_query_fragment by simp_all
  from h p C2_separators_follow_non_empty_components [of ?v asciiEnv "''https://h'' @ ''?''" packageLevelDefaults
                  "''https://h''" ?v "''https://h''" ?v "''https://h''" "[]" ?v]
  show ?thesis by blast
qed

theorem C2_counterexample:
  "snd (Parse asciiEnv ''https://h?'' []) = None
   \<and> String (fst (Parse asciiEnv ''https://h?'' [])) = ''https://h''
   \<and> snd (Parse asciiEnv ''https://h#'' []) = None
   \<and> String (fst (Parse asciiEnv ''https://h#'' [])) = ''https://h''
   \<and> snd (Parse asciiEnv ''https://h?#'' []) = None
   \<and> String (fst (Parse asciiEnv ''https://h?#'' [])) = ''https://h''"
  by (simp add: Parse_def applyURIOptions_def parse_https_h_query parse_https_h_fragment
        parse_https_h_query_fragment String_def buildString_def value_defs)

section \<open>Rendering and parsing again\<close>

lemma validateScheme_http: "validateScheme ''http'' = None"
  by (simp add: validateScheme_def char_defs isASCIILetter_def)

lemma parseAuthority_u_at_colon:
  "parseAuthority ''//u@:'' = Inr (emptyAuthority\<lparr>prefix := ''//'', userinfo := ''u''\<rparr>)"
  by (simp add: authority_defs slice_defs value_defs Let_def)

lemma parseAuthority_u_at:
  "parseAuthority ''//u@'' =
     Inr (emptyAuthority\<lparr>prefix := ''//'', userinfo := ''u'', host := ''u@''\<rparr>)"
  by (simp add: authority_defs slice_defs value_defs Let_def)

lemma validateUserInfo_u: "validateUserInfo asciiEnv ''u'' = None"
  by (simp add: validateUserInfo_def validateUnreservedWithExtra.simps
       decode_defs rune_defs class_defs byte_def Let_def)

lemma validateHost_u_at:
  "validateHost asciiEnv ''u@'' False ''http'' =
     (noIP, Some (Join [ErrInvalidHost, Join [ErrInvalidDNSName,
        Errorf ''a segment in a DNS name must contain only letters, digits or -: %q contains %q'']]))"
  by (simp add: validateHost_def asciiEnv_simps noAddress_def dns_defs
       defaultUsesDNSHostValidation_def errorsJoin_def
       decode_defs rune_defs class_defs byte_def Let_def)

lemma parse_http_u_at_colon:
  "parse asciiEnv ''http://u@:'' packageLevelDefaults =
     (emptyURI\<lparr>scheme := ''http'', hierPart := ''//u@:'',
        authority := emptyAuthority\<lparr>prefix := ''//'', userinfo := ''u''\<rparr>\<rparr>, None)"
  by (simp add: parse_def parseFrom_def parseAuthority_u_at_colon slice_defs flags_default
        flag_defs validate_def validateForScheme_def validateScheme_http validateUserInfo_u
        value_defs Let_def)

lemma parse_http_u_at:
  "snd (parse asciiEnv ''http://u@'' packageLevelDefaults) =
     Some (Join [ErrInvalidHost, Join [ErrInvalidDNSName,
        Errorf ''a segment in a DNS name must contain only letters, digits or -: %q contains %q'']])"
  by (simp add: parse_def parseFrom_def parseAuthority_u_at slice_defs flags_default
        flag_defs validate_def validateForScheme_def validateScheme_http validateHost_u_at
        value_defs Let_def)

text \<open>
  C1 at \<open>http://u@:\<close>.  The input parses successfully, with userinfo \<open>u\<close> and an empty
  host and port (an empty host is not validated).  Its rendering is \<open>http://u@\<close>, which
  does not parse: when nothing follows the at-sign, \<open>parseAuthority\<close> keeps the whole
  text \<open>u@\<close> as the host, and host validation rejects it.
\<close>

theorem C1_round_trip_fails_on_empty_host_after_userinfo:
  "snd (Parse asciiEnv ''http://u@:'' []) = None
   \<and> userinfo (authority (fst (Parse asciiEnv ''http://u@:'' []))) = ''u''
   \<and> host (authority (fst (Parse asciiEnv ''http://u@:'' []))) = []
   \<and> String (fst (Parse asciiEnv ''http://u@:'' [])) = ''http://u@''
   \<and> (\<exists>e. snd (Parse asciiEnv ''http://u@'' []) = Some e \<and> errors_Is e ErrInvalidHost)"
  by (simp add: Parse_def applyURIOptions_def parse_http_u_at_colon parse_http_u_at
        String_def buildString_def value_defs)

section \<open>An empty host is not validated\<close>





































section \<open>Escapes read group by group\<close>




section \<open>Validation of a text does not look past it\<close>









section \<open>Incomplete escapes\<close>























end
